theory Spec2Isabelle
  imports Complex_Main
begin

section \<open>SQLite status codes and retry constants\<close>

text \<open>
  The status codes are the ones of \<^verbatim>\<open>sqlite3.h\<close>; the retry constants are the
  \<^verbatim>\<open>#define\<close>s at the head of \<^verbatim>\<open>readings.cpp\<close>.
\<close>

definition SQLITE_OK :: int where "SQLITE_OK = 0"
definition SQLITE_ERROR :: int where "SQLITE_ERROR = 1"
definition SQLITE_BUSY :: int where "SQLITE_BUSY = 5"
definition SQLITE_LOCKED :: int where "SQLITE_LOCKED = 6"
definition SQLITE_CONSTRAINT :: int where "SQLITE_CONSTRAINT = 19"
definition SQLITE_ROW :: int where "SQLITE_ROW = 100"
definition SQLITE_DONE :: int where "SQLITE_DONE = 101"

definition MAX_RETRIES :: nat where "MAX_RETRIES = 40"
definition RETRY_BACKOFF :: nat where "RETRY_BACKOFF = 100"

definition PREP_CMD_MAX_RETRIES :: nat where "PREP_CMD_MAX_RETRIES = 20"
definition PREP_CMD_RETRY_BASE :: nat where "PREP_CMD_RETRY_BASE = 5000"
definition PREP_CMD_RETRY_BACKOFF :: nat where "PREP_CMD_RETRY_BACKOFF = 5000"

text \<open>The test \<^verbatim>\<open>rc == SQLITE_LOCKED || rc == SQLITE_BUSY\<close> of both retry loops.\<close>

definition lock_status :: "int \<Rightarrow> bool" where
  "lock_status rc \<longleftrightarrow> rc = SQLITE_LOCKED \<or> rc = SQLITE_BUSY"

section \<open>The SQL retry executor: \<^verbatim>\<open>ReadingsCatalogue::SQLexec\<close> and \<^verbatim>\<open>SQLStep\<close>\<close>

text \<open>
  What the executor does to the outside world: it calls the SQLite primitive and it
  sleeps. \<open>Call rc\<close> is one call of \<^verbatim>\<open>sqlite3_exec\<close> (or \<^verbatim>\<open>sqlite3_step\<close>) that
  answered \<open>rc\<close>; \<open>Usleep n\<close> is \<^verbatim>\<open>usleep(n)\<close>, in microseconds.
\<close>

datatype exec_event = Call int | Usleep nat

text \<open>
  The database is an oracle: \<open>sqlite3_exec k\<close> is the status of the call made when the
  local counter \<^verbatim>\<open>retries\<close> is \<open>k\<close>. The \<^verbatim>\<open>do ... while\<close> loop runs its body first and
  tests afterwards; \<open>retries\<close> is the value of the counter on entry to the body. The
  function returns the last \<^verbatim>\<open>rc\<close> and the events in the order they happen.
\<close>

function SQLexec_loop :: "(nat \<Rightarrow> int) \<Rightarrow> nat \<Rightarrow> int \<times> exec_event list" where
  "SQLexec_loop sqlite3_exec retries =
     (let rc = sqlite3_exec retries;
          retries' = retries + 1;
          evs = Call rc #
                (if rc = SQLITE_LOCKED \<or> rc = SQLITE_BUSY
                 then [Usleep (retries' * RETRY_BACKOFF)] else [])
      in if retries' < MAX_RETRIES \<and> (rc = SQLITE_LOCKED \<or> rc = SQLITE_BUSY)
         then (case SQLexec_loop sqlite3_exec retries' of (rc', tr) \<Rightarrow> (rc', evs @ tr))
         else (rc, evs))"
  by pat_completeness auto
termination
  by (relation "measure (\<lambda>(ex, retries). MAX_RETRIES - retries)") auto

declare SQLexec_loop.simps [simp del]

definition SQLexec :: "(nat \<Rightarrow> int) \<Rightarrow> int \<times> exec_event list" where
  "SQLexec sqlite3_exec = SQLexec_loop sqlite3_exec 0"

function SQLStep_loop :: "(nat \<Rightarrow> int) \<Rightarrow> nat \<Rightarrow> int \<times> exec_event list" where
  "SQLStep_loop sqlite3_step retries =
     (let rc = sqlite3_step retries;
          retries' = retries + 1;
          evs = Call rc #
                (if rc = SQLITE_LOCKED \<or> rc = SQLITE_BUSY
                 then [Usleep (retries' * RETRY_BACKOFF)] else [])
      in if retries' < MAX_RETRIES \<and> (rc = SQLITE_LOCKED \<or> rc = SQLITE_BUSY)
         then (case SQLStep_loop sqlite3_step retries' of (rc', tr) \<Rightarrow> (rc', evs @ tr))
         else (rc, evs))"
  by pat_completeness auto
termination
  by (relation "measure (\<lambda>(st, retries). MAX_RETRIES - retries)") auto

declare SQLStep_loop.simps [simp del]

definition SQLStep :: "(nat \<Rightarrow> int) \<Rightarrow> int \<times> exec_event list" where
  "SQLStep sqlite3_step = SQLStep_loop sqlite3_step 0"

text \<open>Reading a trace: the statuses of the calls made.\<close>

fun calls :: "exec_event list \<Rightarrow> int list" where
  "calls [] = []"
| "calls (Call rc # es) = rc # calls es"
| "calls (Usleep n # es) = calls es"

text \<open>
  The events of the attempt made with counter value \<open>j\<close>, and the shape of a run that
  starts with the counter at \<open>r\<close> and makes \<open>n\<close> attempts (used in the proofs).
\<close>

definition attempt :: "(nat \<Rightarrow> int) \<Rightarrow> nat \<Rightarrow> exec_event list" where
  "attempt db j = Call (db j) # (if lock_status (db j) then [Usleep ((j + 1) * RETRY_BACKOFF)] else [])"

definition retry_policy :: "(nat \<Rightarrow> int) \<Rightarrow> nat \<Rightarrow> nat \<Rightarrow> int \<times> exec_event list \<Rightarrow> bool" where
  "retry_policy db r n res \<longleftrightarrow>
     (case res of (rc, tr) \<Rightarrow>
          1 \<le> n \<and> r + n \<le> MAX_RETRIES \<and>
          tr = concat (map (attempt db) [r ..< r + n]) \<and>
          rc = db (r + n - 1) \<and>
          (\<forall>j. r \<le> j \<and> j < r + n - 1 \<longrightarrow> lock_status (db j)) \<and>
          (r + n < MAX_RETRIES \<longrightarrow> \<not> lock_status rc))"

section \<open>Machine arithmetic\<close>

text \<open>
  \<^verbatim>\<open>unsigned long\<close> is 64 bits and \<^verbatim>\<open>unsigned int\<close> 32 bits, both wrapping;
  \<^verbatim>\<open>int\<close> is 32 bits, and a value that does not fit is taken modulo \<open>2^32\<close> into the
  signed range (for arithmetic on \<^verbatim>\<open>int\<close> the standard leaves this open; it is what the
  usual compilers do). \<^verbatim>\<open>/\<close> on \<^verbatim>\<open>int\<close> rounds towards zero.
\<close>

definition u64 :: "int \<Rightarrow> nat" where "u64 x = nat (x mod 2 ^ 64)"
definition u32 :: "int \<Rightarrow> nat" where "u32 x = nat (x mod 2 ^ 32)"
definition s32 :: "int \<Rightarrow> int" where "s32 x = (x + 2 ^ 31) mod 2 ^ 32 - 2 ^ 31"
definition c_div :: "int \<Rightarrow> int \<Rightarrow> int" where "c_div a b = sgn a * sgn b * (\<bar>a\<bar> div \<bar>b\<bar>)"


section \<open>The global ID: \<^verbatim>\<open>evaluateGlobalId\<close>, \<^verbatim>\<open>storeGlobalId\<close>, \<^verbatim>\<open>calculateGlobalId\<close>\<close>

text \<open>
  The part of the database these three methods touch: the rows of
  \<^verbatim>\<open>configuration_readings\<close> (one column, \<^verbatim>\<open>global_id\<close>) and, for every readings table
  \<^verbatim>\<open>readings_<k>\<close>, the \<^verbatim>\<open>id\<close>s of its rows.
\<close>

record readings_db =
  configuration_readings :: "int list"
  readings_ids :: "int \<Rightarrow> int list"

text \<open>
  The catalogue object: \<^verbatim>\<open>m_globalId\<close> and the map \<^verbatim>\<open>m_AssetReadingCatalogue\<close> from an
  asset code to the pair (table id, database id).
\<close>

record ReadingsCatalogue =
  m_globalId :: int
  m_AssetReadingCatalogue :: "(string \<times> int \<times> int) list"

text \<open>
  The statements the three methods run. A statement can fail (prepare or exec not
  \<^verbatim>\<open>SQLITE_OK\<close>, a step that ends on something other than a row after the retries); which
  ones do is the parameter \<open>fails\<close> of the methods below.
\<close>

datatype statement =
    PrepareSelectGlobalId | StepSelectGlobalId | InsertGlobalId | UpdateGlobalId
  | PrepareSelectMaxId | StepSelectMaxId | StoreGlobalId

text \<open>SQL's \<^verbatim>\<open>max\<close>: \<open>None\<close> is NULL, the maximum of no rows; NULLs are ignored.\<close>

fun sql_max :: "int list \<Rightarrow> int option" where
  "sql_max [] = None"
| "sql_max (x # xs) = (case sql_max xs of None \<Rightarrow> Some x | Some m \<Rightarrow> Some (max x m))"

fun sql_max_opt :: "int option list \<Rightarrow> int option" where
  "sql_max_opt [] = None"
| "sql_max_opt (None # xs) = sql_max_opt xs"
| "sql_max_opt (Some x # xs) =
     (case sql_max_opt xs of None \<Rightarrow> Some x | Some m \<Rightarrow> Some (max x m))"

text \<open>
  \<^verbatim>\<open>sqlite3_column_int\<close> reads NULL as 0 and answers a C \<^verbatim>\<open>int\<close>: of a stored integer,
  which has 64 bits, it keeps the low 32 bits.
\<close>

definition sqlite3_column_int :: "int option \<Rightarrow> int" where
  "sqlite3_column_int v = s32 (case v of None \<Rightarrow> 0 | Some i \<Rightarrow> i)"

text \<open>
  \<^verbatim>\<open>calculateGlobalId\<close>. The query is \<^verbatim>\<open>SELECT max(id) FROM (... UNION ...)\<close> over
  \<^verbatim>\<open>readings_1\<close> when the catalogue is empty and over the table of every catalogue entry
  otherwise. When the prepare fails the method executes \<^verbatim>\<open>return false\<close>, which in an
  \<^verbatim>\<open>int\<close> function is 0. An aggregate query yields exactly one row, so the step gives
  \<^verbatim>\<open>SQLITE_ROW\<close> unless it fails. The maximum is read with \<^verbatim>\<open>sqlite3_column_int\<close> into
  \<^verbatim>\<open>int id\<close>, and \<^verbatim>\<open>id++\<close> is arithmetic on \<^verbatim>\<open>int\<close>: at \<open>2^31 - 1\<close> it overflows.
\<close>

definition calculateGlobalId :: "(statement \<Rightarrow> bool) \<Rightarrow> ReadingsCatalogue \<Rightarrow> readings_db \<Rightarrow> int" where
  "calculateGlobalId fails cat db =
     (let tables = (if m_AssetReadingCatalogue cat = [] then [1]
                    else map (\<lambda>item. fst (snd item)) (m_AssetReadingCatalogue cat));
          tb = sql_max_opt (map (\<lambda>t. sql_max (readings_ids db t)) tables)
      in if fails PrepareSelectMaxId then 0
         else if fails StepSelectMaxId then 1
         else s32 (sqlite3_column_int tb + 1))"

text \<open>
  \<^verbatim>\<open>evaluateGlobalId\<close>, with its early returns. The result is the returned flag, the
  catalogue and the database afterwards. The \<^verbatim>\<open>SELECT\<close> yields a row when the table
  has one, and its value is read with \<^verbatim>\<open>sqlite3_column_int\<close>; the \<^verbatim>\<open>UPDATE\<close> has no
  \<^verbatim>\<open>WHERE\<close> and sets every row.
\<close>

definition evaluateGlobalId ::
  "(statement \<Rightarrow> bool) \<Rightarrow> ReadingsCatalogue \<Rightarrow> readings_db \<Rightarrow> bool \<times> ReadingsCatalogue \<times> readings_db" where
  "evaluateGlobalId fails cat db =
     (if fails PrepareSelectGlobalId then (False, cat, db)
      else
        let no_row = (fails StepSelectGlobalId \<or> configuration_readings db = []);
            cat1 = (if no_row then cat\<lparr>m_globalId := 1\<rparr>
                    else cat\<lparr>m_globalId :=
                               sqlite3_column_int (Some (hd (configuration_readings db)))\<rparr>);
            db1 = (if no_row \<and> \<not> fails InsertGlobalId
                   then db\<lparr>configuration_readings := configuration_readings db @ [m_globalId cat1]\<rparr>
                   else db)
        in if no_row \<and> fails InsertGlobalId then (False, cat1, db1)
           else
             let cat2 = (if m_globalId cat1 = - 1
                         then cat1\<lparr>m_globalId := calculateGlobalId fails cat1 db1\<rparr>
                         else cat1)
             in if fails UpdateGlobalId then (False, cat2, db1)
                else (True, cat2,
                      db1\<lparr>configuration_readings := map (\<lambda>_. - 1) (configuration_readings db1)\<rparr>))"

text \<open>
  \<^verbatim>\<open>storeGlobalId\<close>. The statement text is
  \<^verbatim>\<open>"UPDATE ... SET global_id=-" + to_string(m_globalId)\<close>: a minus sign, then the decimal
  digits of \<^verbatim>\<open>m_globalId\<close>. For \<^verbatim>\<open>m_globalId \<ge> 0\<close> this is the literal of the negated
  value. For a negative \<^verbatim>\<open>m_globalId\<close> the text after \<^verbatim>\<open>=\<close> starts with \<^verbatim>\<open>--\<close>, which
  opens an SQL comment: the statement ends at \<^verbatim>\<open>global_id=\<close>, SQLite rejects it, and the
  method returns false with the table as it was.
\<close>

definition storeGlobalId ::
  "(statement \<Rightarrow> bool) \<Rightarrow> ReadingsCatalogue \<Rightarrow> readings_db \<Rightarrow> bool \<times> readings_db" where
  "storeGlobalId fails cat db =
     (if fails StoreGlobalId \<or> m_globalId cat < 0 then (False, db)
      else (True, db\<lparr>configuration_readings :=
                        map (\<lambda>_. - m_globalId cat) (configuration_readings db)\<rparr>))"

text \<open>
  Modelled from the spec: \<^verbatim>\<open>ReadingsCatalogue::getGlobalId\<close> is called by
  \<^verbatim>\<open>appendReadings\<close> but defined in a header that is not among the sources. The spec's
  words are: "Next ID. Return and atomically increment the in-memory global ID on every
  insert."
\<close>

definition getGlobalId :: "ReadingsCatalogue \<Rightarrow> int \<times> ReadingsCatalogue" where
  "getGlobalId cat = (m_globalId cat, cat\<lparr>m_globalId := m_globalId cat + 1\<rparr>)"

text \<open>No statement fails.\<close>

definition no_failure :: "statement \<Rightarrow> bool" where
  "no_failure s = False"

text \<open>
  A catalogue with one asset in \<^verbatim>\<open>readings_1\<close>, and a database whose \<^verbatim>\<open>readings_1\<close>
  holds the ids 40, 41 and 42, with a given stored global ID.
\<close>

definition one_asset_catalogue :: "int \<Rightarrow> ReadingsCatalogue" where
  "one_asset_catalogue g = \<lparr>m_globalId = g, m_AssetReadingCatalogue = [(''T1'', 1, 1)]\<rparr>"

definition db_max42 :: "int \<Rightarrow> readings_db" where
  "db_max42 stored =
     \<lparr>configuration_readings = [stored],
      readings_ids = (\<lambda>t. if t = 1 then [40, 41, 42] else [])\<rparr>"

section \<open>The ingest class: resend queue and statistics\<close>

text \<open>
  A reading, as far as the ingest class looks at it: its asset name and the rest. The
  members of \<^verbatim>\<open>Ingest\<close> that \<^verbatim>\<open>processQueue\<close> and \<^verbatim>\<open>updateStats\<close> read and write.
  \<^verbatim>\<open>statsPendingEntries\<close> is a \<^verbatim>\<open>std::map\<close> from asset name to count, kept here as a list
  of pairs with distinct keys in the order of first insertion (the source iterates in
  key order); \<^verbatim>\<open>statsDbEntriesCache\<close> is a set of asset names.
\<close>

record Reading =
  assetName :: string
  datapoints :: string

record Ingest =
  m_resendQueues :: "Reading list list"
  m_failCnt :: int
  m_storageFailed :: bool
  m_storesFailed :: int
  m_discardedReadings :: int
  statsPendingEntries :: "(string \<times> int) list"
  statsDbEntriesCache :: "string list"

text \<open>
  Modelled from the spec: \<^verbatim>\<open>Ingest::logDiscardedStat\<close> is called by \<^verbatim>\<open>processQueue\<close> for
  every reading it removes, but is defined in a header that is not among the sources.
  The spec's words are that such a reading is "counted as DISCARDED", and
  \<^verbatim>\<open>updateStats\<close> sends \<^verbatim>\<open>m_discardedReadings\<close> as the increment of the DISCARDED row: the
  call adds one to \<^verbatim>\<open>m_discardedReadings\<close>.
\<close>

definition logDiscardedStat :: "Ingest \<Rightarrow> Ingest" where
  "logDiscardedStat s = s\<lparr>m_discardedReadings := m_discardedReadings s + 1\<rparr>"

text \<open>
  The loop \<^verbatim>\<open>for (int cnt = 5; cnt > 0 && q->size() > 0; cnt--)\<close> of \<^verbatim>\<open>processQueue\<close>:
  it deletes the front reading of \<open>q\<close>, erases it and calls \<^verbatim>\<open>logDiscardedStat\<close>.
\<close>

fun remove_readings :: "nat \<Rightarrow> Reading list \<Rightarrow> Ingest \<Rightarrow> Reading list \<times> Ingest" where
  "remove_readings 0 q s = (q, s)"
| "remove_readings (Suc cnt) [] s = ([], s)"
| "remove_readings (Suc cnt) (reading # q) s = remove_readings cnt q (logDiscardedStat s)"

text \<open>
  \<^verbatim>\<open>statsEntriesCurrQueue[assetName]\<close> and \<^verbatim>\<open>statsPendingEntries[key] += n\<close>: indexing a
  \<^verbatim>\<open>std::map\<close> creates the entry with value 0 when the key is new.
\<close>

fun map_add :: "string \<Rightarrow> int \<Rightarrow> (string \<times> int) list \<Rightarrow> (string \<times> int) list" where
  "map_add k n [] = [(k, n)]"
| "map_add k n ((k', v) # m) = (if k = k' then (k', v + n) # m else (k', v) # map_add k n m)"

text \<open>
  The loop over a stored queue that counts its readings per asset. \<^verbatim>\<open>lastAsset\<close> starts
  as the empty string and \<^verbatim>\<open>lastStat\<close> as a null pointer, here \<open>None\<close>: a reading whose
  asset name equals \<^verbatim>\<open>lastAsset\<close> is counted against \<^verbatim>\<open>lastStat\<close> when there is one. (The
  asset tracker the loop also informs is an external collaborator and is left out.)
\<close>

fun count_assets ::
  "string \<Rightarrow> string option \<Rightarrow> Reading list \<Rightarrow> (string \<times> int) list \<Rightarrow> (string \<times> int) list" where
  "count_assets lastAsset lastStat [] cur = cur"
| "count_assets lastAsset lastStat (reading # q) cur =
     (if lastAsset \<noteq> assetName reading
      then count_assets (assetName reading) (Some (assetName reading)) q
             (map_add (assetName reading) 1 cur)
      else (case lastStat of
              Some k \<Rightarrow> count_assets lastAsset lastStat q (map_add k 1 cur)
            | None \<Rightarrow> count_assets lastAsset lastStat q cur))"

definition add_pending :: "(string \<times> int) list \<Rightarrow> Ingest \<Rightarrow> Ingest" where
  "add_pending cur s =
     s\<lparr>statsPendingEntries := fold (\<lambda>(k, n) m. map_add k n m) cur (statsPendingEntries s)\<rparr>"

text \<open>
  One turn of the loop \<^verbatim>\<open>while (m_resendQueues.size() > 0)\<close> of \<^verbatim>\<open>processQueue\<close>, for the
  answer \<open>appended\<close> of \<^verbatim>\<open>m_storage.readingAppend(*q)\<close> on the first resend queue.
\<close>

definition resend_turn :: "bool \<Rightarrow> Ingest \<Rightarrow> Ingest" where
  "resend_turn appended s =
     (case m_resendQueues s of
        [] \<Rightarrow> s
      | q # rest \<Rightarrow>
          if \<not> appended then
            let s1 = s\<lparr>m_storageFailed := True,
                       m_storesFailed := m_storesFailed s + 1,
                       m_failCnt := m_failCnt s + 1\<rparr>
            in if m_failCnt s1 > 5
               then (case remove_readings 5 q s1 of
                       (q', s2) \<Rightarrow>
                         s2\<lparr>m_resendQueues := (if q' = [] then rest else q' # rest),
                            m_failCnt := 0\<rparr>)
               else s1
          else
            let s1 = (if m_storageFailed s
                      then s\<lparr>m_storageFailed := False, m_storesFailed := 0\<rparr> else s)
            in add_pending (count_assets [] None q [])
                 (s1\<lparr>m_failCnt := 0, m_resendQueues := rest\<rparr>))"

text \<open>
  The loop itself, for the successive answers of the storage layer. It ends when no
  resend queue is left; \<open>None\<close> means that the answers given ran out before that.
\<close>

fun resend_loop :: "bool list \<Rightarrow> Ingest \<Rightarrow> Ingest option" where
  "resend_loop answers s =
     (if m_resendQueues s = [] then Some s
      else (case answers of
              [] \<Rightarrow> None
            | appended # later \<Rightarrow> resend_loop later (resend_turn appended s)))"

declare resend_loop.simps [simp del]

text \<open>
  The end of \<^verbatim>\<open>processQueue\<close>: the non-empty batch \<open>m_data\<close> is handed to the storage
  layer; when that fails it becomes the last resend queue and the failure counter is
  set to 1.
\<close>

definition store_data :: "bool \<Rightarrow> Reading list \<Rightarrow> Ingest \<Rightarrow> Ingest" where
  "store_data appended m_data s =
     (if m_data = [] then s
      else if \<not> appended then
        s\<lparr>m_storageFailed := True,
          m_storesFailed := m_storesFailed s + 1,
          m_resendQueues := m_resendQueues s @ [m_data],
          m_failCnt := 1\<rparr>
      else
        let s1 = (if m_storageFailed s
                  then s\<lparr>m_storageFailed := False, m_storesFailed := 0\<rparr> else s)
        in add_pending (count_assets [] None m_data []) (s1\<lparr>m_failCnt := 0\<rparr>))"

text \<open>\<^verbatim>\<open>toupper\<close> in the C locale, on one character and on a key.\<close>

definition toupper :: "char \<Rightarrow> char" where
  "toupper c =
     (if 97 \<le> (of_char c :: nat) \<and> (of_char c :: nat) \<le> 122
      then char_of ((of_char c :: nat) - 32) else c)"

text \<open>
  The loop of \<^verbatim>\<open>updateStats\<close> over \<^verbatim>\<open>statsPendingEntries\<close>. It carries the updates
  collected so far, the total \<^verbatim>\<open>readings\<close> and the cache of keys known to have a row.
  (\<^verbatim>\<open>createStatsDbEntry\<close> writes to the statistics table of the management service
  only; its effect here is the entry in the cache.)
\<close>

fun stats_entries ::
  "(string \<times> int) list \<Rightarrow> (string \<times> int) list \<times> int \<times> string list \<Rightarrow>
   (string \<times> int) list \<times> int \<times> string list" where
  "stats_entries [] acc = acc"
| "stats_entries ((name, n) # es) (statsUpdates, readings, cache) =
     (let cache' = (if name \<in> set cache then cache else cache @ [name])
      in if n \<noteq> 0
         then stats_entries es (statsUpdates @ [(map toupper name, n)], readings + n, cache')
         else stats_entries es (statsUpdates, readings, cache'))"

text \<open>
  \<^verbatim>\<open>updateStats\<close>, after the wait on the condition variable. \<open>rv\<close> is the answer of
  \<^verbatim>\<open>m_storage.updateTable\<close>, \<open>None\<close> when it throws. The result is the batch of updates
  handed to \<^verbatim>\<open>updateTable\<close>, as pairs of a key and the increment of its value (\<open>None\<close>
  when the method returns before submitting anything), and the object afterwards.
\<close>

definition updateStats :: "int option \<Rightarrow> Ingest \<Rightarrow> (string \<times> int) list option \<times> Ingest" where
  "updateStats rv s =
     (if statsPendingEntries s = [] then (None, s)
      else
        (case stats_entries (statsPendingEntries s) ([], 0, statsDbEntriesCache s) of
           (statsUpdates, readings, cache) \<Rightarrow>
             let u1 = (if readings \<noteq> 0 then statsUpdates @ [(''READINGS'', readings)]
                       else statsUpdates);
                 u2 = (if m_discardedReadings s \<noteq> 0
                       then u1 @ [(''DISCARDED'', m_discardedReadings s)] else u1);
                 s1 = s\<lparr>statsDbEntriesCache := cache\<rparr>
             in (Some u2,
                 (case rv of
                    None \<Rightarrow> s1
                  | Some r \<Rightarrow>
                      if r < 0 then s1
                      else s1\<lparr>m_discardedReadings := 0, statsPendingEntries := []\<rparr>))))"

text \<open>Example objects: nothing discarded and three readings of one asset pending; a
  batch of seven readings and a fresh object.\<close>

definition ingest0 :: Ingest where
  "ingest0 = \<lparr>m_resendQueues = [], m_failCnt = 0, m_storageFailed = False, m_storesFailed = 0,
              m_discardedReadings = 0, statsPendingEntries = [], statsDbEntriesCache = []\<rparr>"

definition batch7 :: "Reading list" where
  "batch7 = map (\<lambda>d. \<lparr>assetName = ''pump'', datapoints = d\<rparr>)
              [''a'', ''b'', ''c'', ''d'', ''e'', ''f'', ''g'']"

definition pump3_pending :: Ingest where
  "pump3_pending = ingest0\<lparr>statsPendingEntries := [(''pump'', 3)]\<rparr>"

section \<open>The storage engine: \<^verbatim>\<open>appendReadings\<close> and \<^verbatim>\<open>readingStream\<close>\<close>

text \<open>
  What the two methods do to the database connection, in the order they do it: the
  three transaction commands, the binding of a row to the prepared \<^verbatim>\<open>INSERT\<close> of a
  table (table id, bound id when there is one, timestamp, payload), one call of
  \<^verbatim>\<open>sqlite3_step\<close> with its status, and
  \<^verbatim>\<open>std::this_thread::sleep_for(std::chrono::milliseconds(n))\<close>.
\<close>

datatype db_event =
    BeginTransaction
  | EndTransaction int
  | RollbackTransaction
  | Bind int "int option" string string
  | Step int
  | Sleep_ms nat

text \<open>
  What the methods get from outside: the status of the \<open>k\<close>-th call of
  \<^verbatim>\<open>sqlite3_step\<close> and the value of the \<open>j\<close>-th call of \<^verbatim>\<open>random()\<close> since the method
  started; whether the \<^verbatim>\<open>INSERT\<close> for a table can be prepared; whether
  \<^verbatim>\<open>BEGIN TRANSACTION\<close> succeeds; the status of \<^verbatim>\<open>END TRANSACTION\<close>; the current time
  as \<^verbatim>\<open>getNow\<close> renders it. \<^verbatim>\<open>formatDate\<close> is a utility that is not among the sources:
  it answers \<open>None\<close> for a date it rejects and the formatted date otherwise.
  \<^verbatim>\<open>getReadingReference\<close> resolves (and if need be allocates) the table of an asset; only
  the table id it answers matters here.
\<close>

record sqlite_env =
  sqlite3_step :: "nat \<Rightarrow> int"
  random_value :: "nat \<Rightarrow> nat"
  prepare_ok :: "int \<Rightarrow> bool"
  begin_ok :: bool
  end_status :: int
  getNow :: string
  formatDate :: "string \<Rightarrow> string option"
  getReadingReference :: "string \<Rightarrow> int"

text \<open>
  The retry loop around \<^verbatim>\<open>sqlite3_step\<close>, the same \<^verbatim>\<open>do ... while\<close> in both methods.
  \<open>k\<close> and \<open>j\<close> count the calls of \<^verbatim>\<open>sqlite3_step\<close> and \<^verbatim>\<open>random()\<close> made so far;
  \<open>retries\<close> is the local counter, reset to 0 before the loop. The two \<^verbatim>\<open>if\<close>s of the
  body test for \<^verbatim>\<open>SQLITE_LOCKED\<close> and for \<^verbatim>\<open>SQLITE_BUSY\<close> and do the same: they draw
  \<^verbatim>\<open>sleep_time_ms = PREP_CMD_RETRY_BASE + (random() % PREP_CMD_RETRY_BACKOFF)\<close>, increment
  \<^verbatim>\<open>retries\<close> and sleep for \<^verbatim>\<open>sleep_time_ms\<close> milliseconds. The result is the last
  status, the events and the two counters afterwards.
\<close>

function step_with_retry ::
  "sqlite_env \<Rightarrow> nat \<Rightarrow> nat \<Rightarrow> nat \<Rightarrow> int \<times> db_event list \<times> nat \<times> nat" where
  "step_with_retry env k j retries =
     (let sqlite3_resut = sqlite3_step env k;
          locked = (sqlite3_resut = SQLITE_LOCKED \<or> sqlite3_resut = SQLITE_BUSY);
          sleep_time_ms = PREP_CMD_RETRY_BASE + random_value env j mod PREP_CMD_RETRY_BACKOFF;
          retries' = (if locked then retries + 1 else retries);
          j' = (if locked then j + 1 else j);
          evs = Step sqlite3_resut # (if locked then [Sleep_ms sleep_time_ms] else [])
      in if retries' < PREP_CMD_MAX_RETRIES \<and> locked
         then (case step_with_retry env (k + 1) j' retries' of
                 (rc, tr, k', j'') \<Rightarrow> (rc, evs @ tr, k', j''))
         else (sqlite3_resut, evs, k + 1, j'))"
  by pat_completeness auto
termination
  by (relation "measure (\<lambda>(env, k, j, retries). PREP_CMD_MAX_RETRIES - retries)") auto

declare step_with_retry.simps [simp del]

text \<open>
  The document \<^verbatim>\<open>appendReadings\<close> parses: the three malformed shapes it rejects before
  touching the database, or the elements of the \<^verbatim>\<open>readings\<close> array. An element is
  either not an object or a reading with its three members.
\<close>

datatype reading_item = NotObject | ReadingObject string string string

datatype payload = ParseError | NoReadings | ReadingsNotArray | ReadingsArray "reading_item list"

text \<open>
  The local variable \<^verbatim>\<open>sqlite3_stmt *stmt\<close> of \<^verbatim>\<open>appendReadings\<close>. It is declared
  without an initialiser, so until the first assignment its value is indeterminate;
  afterwards it is the null pointer or the prepared \<^verbatim>\<open>INSERT\<close> of a table, named here
  by the table id.
\<close>

datatype stmt_ptr = Uninitialised | NullStmt | Prepared int

text \<open>
  The local state of \<^verbatim>\<open>appendReadings\<close> while it walks the array: the counters of the
  two oracles, the events so far, \<^verbatim>\<open>row\<close>, \<^verbatim>\<open>lastAsset\<close>, the current \<^verbatim>\<open>stmt\<close>, the
  tables whose statement in \<^verbatim>\<open>readingsStmt\<close> is prepared, and the catalogue's
  \<^verbatim>\<open>m_globalId\<close>.
\<close>

record append_state =
  steps :: nat
  randoms :: nat
  events :: "db_event list"
  row :: int
  lastAsset :: string
  stmt :: stmt_ptr
  readingsStmt :: "int list"
  globalId :: int

text \<open>
  The date handling shared by both methods: \<^verbatim>\<open>"now()"\<close> becomes the current time, any
  other text goes through \<^verbatim>\<open>formatDate\<close>, and \<open>None\<close> is \<^verbatim>\<open>add_row = false\<close>.
\<close>

definition resolve_user_ts :: "sqlite_env \<Rightarrow> string \<Rightarrow> string option" where
  "resolve_user_ts env user_ts =
     (if user_ts = ''now()'' then Some (getNow env) else formatDate env user_ts)"

text \<open>
  The part of the loop body that runs when the asset differs from the last one: look
  the table up, prepare its statement if \<^verbatim>\<open>readingsStmt\<close> has none, and make it the
  current \<^verbatim>\<open>stmt\<close> (a failed prepare raises an error and leaves the null pointer). The
  asset is compared with \<^verbatim>\<open>lastAsset\<close>, which starts as the empty string.
\<close>

definition select_stmt :: "sqlite_env \<Rightarrow> string \<Rightarrow> append_state \<Rightarrow> append_state" where
  "select_stmt env asset_code st =
     (if lastAsset st \<noteq> asset_code then
        let readingsId = getReadingReference env asset_code;
            prepared = (if readingsId \<in> set (readingsStmt st) then readingsStmt st
                        else if prepare_ok env readingsId then readingsStmt st @ [readingsId]
                        else readingsStmt st)
        in st\<lparr>readingsStmt := prepared,
              stmt := (if readingsId \<in> set prepared then Prepared readingsId else NullStmt),
              lastAsset := asset_code\<rparr>
      else st)"

text \<open>
  How the loop over the array ends: it runs to its end, the body returns early, or the
  body evaluates \<^verbatim>\<open>stmt != NULL\<close> while \<^verbatim>\<open>stmt\<close> is still uninitialised, where the
  language defines no behaviour.
\<close>

datatype loop_exit = Completed | Returned int | UninitialisedRead

text \<open>
  The loop over the array. The body returns \<open>-1\<close> early after \<^verbatim>\<open>ROLLBACK\<close>. With a
  null \<^verbatim>\<open>stmt\<close> the reading is passed over without a word. The id bound to a row is the
  one \<^verbatim>\<open>getGlobalId()\<close> hands out: the current global ID, which is then incremented,
  whether or not the row gets inserted.
\<close>

fun append_loop :: "sqlite_env \<Rightarrow> reading_item list \<Rightarrow> append_state \<Rightarrow> loop_exit \<times> append_state" where
  "append_loop env [] st = (Completed, st)"
| "append_loop env (NotObject # itr) st =
     (Returned (- 1), st\<lparr>events := events st @ [RollbackTransaction]\<rparr>)"
| "append_loop env (ReadingObject user_ts asset_code reading # itr) st =
     (case resolve_user_ts env user_ts of
        None \<Rightarrow> append_loop env itr st
      | Some ts \<Rightarrow>
          let st1 = select_stmt env asset_code st
          in (case stmt st1 of
                Uninitialised \<Rightarrow> (UninitialisedRead, st1)
              | NullStmt \<Rightarrow> append_loop env itr st1
              | Prepared t \<Rightarrow>
                  (case step_with_retry env (steps st1) (randoms st1) 0 of
                     (sqlite3_resut, tr, k, j) \<Rightarrow>
                       let st2 = st1\<lparr>steps := k, randoms := j,
                                     events := events st1 @ Bind t (Some (globalId st1)) ts reading # tr,
                                     globalId := globalId st1 + 1\<rparr>
                       in if sqlite3_resut = SQLITE_DONE
                          then append_loop env itr (st2\<lparr>row := row st2 + 1\<rparr>)
                          else (Returned (- 1),
                                st2\<lparr>events := events st2 @ [RollbackTransaction]\<rparr>))))"

text \<open>
  \<^verbatim>\<open>appendReadings\<close>: the returned \<^verbatim>\<open>int\<close>, the events, and the catalogue's global ID
  afterwards; \<open>None\<close> is a run that reads the uninitialised \<^verbatim>\<open>stmt\<close>. The status of
  \<^verbatim>\<open>BEGIN TRANSACTION\<close> is not looked at.
\<close>

definition appendReadings ::
  "sqlite_env \<Rightarrow> payload \<Rightarrow> int \<Rightarrow> (int \<times> db_event list \<times> int) option" where
  "appendReadings env doc m_globalId0 =
     (case doc of
        ParseError \<Rightarrow> Some (- 1, [], m_globalId0)
      | NoReadings \<Rightarrow> Some (- 1, [], m_globalId0)
      | ReadingsNotArray \<Rightarrow> Some (- 1, [], m_globalId0)
      | ReadingsArray readingsValue \<Rightarrow>
          (case append_loop env readingsValue
                  \<lparr>steps = 0, randoms = 0, events = [BeginTransaction], row = 0,
                   lastAsset = [], stmt = Uninitialised, readingsStmt = [],
                   globalId = m_globalId0\<rparr> of
             (Returned r, st) \<Rightarrow> Some (r, events st, globalId st)
           | (Completed, st) \<Rightarrow>
               Some (if end_status env \<noteq> SQLITE_OK then - 1 else row st,
                     events st @ [EndTransaction (end_status env)], globalId st)
           | (UninitialisedRead, st) \<Rightarrow> None))"

text \<open>
  An entry of the stream \<^verbatim>\<open>readingStream\<close> reads: the user timestamp as the method
  renders it (\<^verbatim>\<open>strftime\<close> of the seconds, then the microseconds), the asset code and
  the payload.
\<close>

record stream_entry =
  userTs :: string
  assetCode :: string
  payload_text :: string

text \<open>
  The loop \<^verbatim>\<open>for (i = 0; readings[i]; i++)\<close>. The state is the counters, the events,
  \<^verbatim>\<open>rowNumber\<close> and \<^verbatim>\<open>i\<close>. The statement inserts into \<^verbatim>\<open>readings_1\<close> and binds no id.
\<close>

record stream_state =
  s_steps :: nat
  s_randoms :: nat
  s_events :: "db_event list"
  rowNumber :: int
  i :: int

fun stream_loop :: "sqlite_env \<Rightarrow> stream_entry list \<Rightarrow> stream_state \<Rightarrow> int option \<times> stream_state" where
  "stream_loop env [] st = (None, st)"
| "stream_loop env (e # readings) st =
     (case resolve_user_ts env (userTs e) of
        None \<Rightarrow> stream_loop env readings (st\<lparr>i := i st + 1\<rparr>)
      | Some ts \<Rightarrow>
          (case step_with_retry env (s_steps st) (s_randoms st) 0 of
             (sqlite3_resut, tr, k, j) \<Rightarrow>
               let st2 = st\<lparr>s_steps := k, s_randoms := j,
                            s_events := s_events st @ Bind 1 None ts (payload_text e) # tr\<rparr>
               in if sqlite3_resut = SQLITE_DONE
                  then stream_loop env readings (st2\<lparr>rowNumber := rowNumber st2 + 1, i := i st2 + 1\<rparr>)
                  else (Some (- 1),
                        st2\<lparr>s_events := s_events st2 @ [RollbackTransaction]\<rparr>)))"

text \<open>
  \<^verbatim>\<open>readingStream\<close>: the returned \<^verbatim>\<open>int\<close> and the events. \<^verbatim>\<open>commit\<close> is forced to true.
  After the loop the method executes \<^verbatim>\<open>rowNumber = i\<close>.
\<close>

definition readingStream :: "sqlite_env \<Rightarrow> stream_entry list \<Rightarrow> int \<times> db_event list" where
  "readingStream env readings =
     (if \<not> prepare_ok env 1 then (- 1, [])
      else if \<not> begin_ok env then (- 1, [BeginTransaction])
      else
        (case stream_loop env readings
                \<lparr>s_steps = 0, s_randoms = 0, s_events = [BeginTransaction],
                 rowNumber = - 1, i = 0\<rparr> of
           (Some r, st) \<Rightarrow> (r, s_events st)
         | (None, st) \<Rightarrow>
             let st1 = st\<lparr>rowNumber := i st\<rparr>
             in (if end_status env \<noteq> SQLITE_OK then - 1 else rowNumber st1,
                 s_events st1 @ [EndTransaction (end_status env)])))"

text \<open>Reading a trace: the statuses of the steps, the sleeps, the rows inserted (the
  steps that ended with \<^verbatim>\<open>SQLITE_DONE\<close>) and the transaction commands.\<close>

fun step_statuses :: "db_event list \<Rightarrow> int list" where
  "step_statuses [] = []"
| "step_statuses (Step rc # es) = rc # step_statuses es"
| "step_statuses (e # es) = step_statuses es"

fun sleeps_ms :: "db_event list \<Rightarrow> nat list" where
  "sleeps_ms [] = []"
| "sleeps_ms (Sleep_ms n # es) = n # sleeps_ms es"
| "sleeps_ms (e # es) = sleeps_ms es"

definition rows_inserted :: "db_event list \<Rightarrow> nat" where
  "rows_inserted tr = length (filter (\<lambda>rc. rc = SQLITE_DONE) (step_statuses tr))"


text \<open>
  The elements of the array that get past the date handling: the readings whose
  \<^verbatim>\<open>user_ts\<close> is \<^verbatim>\<open>"now()"\<close> or is accepted by \<^verbatim>\<open>formatDate\<close>.
\<close>

definition date_accepted :: "sqlite_env \<Rightarrow> reading_item \<Rightarrow> bool" where
  "date_accepted env item =
     (case item of
        NotObject \<Rightarrow> False
      | ReadingObject user_ts asset_code reading \<Rightarrow> resolve_user_ts env user_ts \<noteq> None)"

text \<open>
  Example environments: every step succeeds at once, or the first step finds the
  database busy; dates are accepted unless they are the text \<^verbatim>\<open>bad\<close>; every asset lives
  in \<^verbatim>\<open>readings_1\<close>.
\<close>

definition env_busy_first :: "nat \<Rightarrow> sqlite_env" where
  "env_busy_first n =
     \<lparr>sqlite3_step = (\<lambda>k. if k < n then SQLITE_BUSY else SQLITE_DONE),
      random_value = (\<lambda>j. 0),
      prepare_ok = (\<lambda>t. True),
      begin_ok = True,
      end_status = SQLITE_OK,
      getNow = ''2024-01-01 00:00:00.000000'',
      formatDate = (\<lambda>d. if d = ''bad'' then None else Some d),
      getReadingReference = (\<lambda>a. 1)\<rparr>"

text \<open>
  The events of one turn of the retry loop, made with the oracle counters at \<open>k\<close> and
  \<open>j\<close>, and the shape of a run of \<open>n\<close> turns that starts with \<^verbatim>\<open>retries\<close> at \<open>r\<close> (used
  in the proofs).
\<close>

definition insert_attempt :: "sqlite_env \<Rightarrow> nat \<Rightarrow> nat \<Rightarrow> db_event list" where
  "insert_attempt env k j =
     Step (sqlite3_step env k) #
     (if lock_status (sqlite3_step env k)
      then [Sleep_ms (PREP_CMD_RETRY_BASE + random_value env j mod PREP_CMD_RETRY_BACKOFF)]
      else [])"

definition insert_policy ::
  "sqlite_env \<Rightarrow> nat \<Rightarrow> nat \<Rightarrow> nat \<Rightarrow> nat \<Rightarrow> int \<times> db_event list \<times> nat \<times> nat \<Rightarrow> bool" where
  "insert_policy env k j r n res \<longleftrightarrow>
     (case res of (rc, tr, k', j') \<Rightarrow>
        1 \<le> n \<and> r + n \<le> PREP_CMD_MAX_RETRIES \<and>
        tr = concat (map (\<lambda>i. insert_attempt env (k + i) (j + i)) [0 ..< n]) \<and>
        rc = sqlite3_step env (k + n - 1) \<and>
        (\<forall>i < n - 1. lock_status (sqlite3_step env (k + i))) \<and>
        (r + n < PREP_CMD_MAX_RETRIES \<longrightarrow> \<not> lock_status rc) \<and>
        k' = k + n \<and> j' = (if lock_status rc then j + n else j + n - 1))"

text \<open>Example inputs: a reading with a date that is accepted and one with a date that
  is rejected, as array elements and as stream entries.\<close>

definition good_reading :: reading_item where
  "good_reading = ReadingObject ''2024-01-01 00:00:00.000000'' ''T1'' ''{x:1}''"

definition bad_date_reading :: reading_item where
  "bad_date_reading = ReadingObject ''bad'' ''T1'' ''{x:2}''"


definition good_entry :: stream_entry where
  "good_entry = \<lparr>userTs = ''2024-01-01 00:00:00.000000'', assetCode = ''T1'', payload_text = ''{x:1}''\<rparr>"

definition bad_date_entry :: stream_entry where
  "bad_date_entry = \<lparr>userTs = ''bad'', assetCode = ''T1'', payload_text = ''{x:2}''\<rparr>"

section \<open>The purge engine: \<^verbatim>\<open>Connection::purgeReadings\<close>\<close>

definition PURGE_DELETE_BLOCK_SIZE :: int where "PURGE_DELETE_BLOCK_SIZE = 20"
definition TARGET_PURGE_BLOCK_DEL_TIME :: int where "TARGET_PURGE_BLOCK_DEL_TIME = 70 * 1000"
definition PURGE_BLOCK_SZ_GRANULARITY :: int where "PURGE_BLOCK_SZ_GRANULARITY = 5"
definition MIN_PURGE_DELETE_BLOCK_SIZE :: int where "MIN_PURGE_DELETE_BLOCK_SIZE = 20"
definition MAX_PURGE_DELETE_BLOCK_SIZE :: int where "MAX_PURGE_DELETE_BLOCK_SIZE = 1500"
definition RECALC_PURGE_BLOCK_SIZE_NUM_BLOCKS :: int where "RECALC_PURGE_BLOCK_SIZE_NUM_BLOCKS = 30"

text \<open>
  A row of \<^verbatim>\<open>readings_1\<close>: its rowid, which is also its \<^verbatim>\<open>id\<close> (the column is the
  integer primary key), and \<^verbatim>\<open>user_ts\<close> in seconds.
\<close>

record reading_row =
  rowid :: nat
  user_ts :: int

text \<open>
  The queries of the method, with \<^verbatim>\<open>rowidCallback\<close> (not among the sources) storing the
  number of the first column and 0 for NULL: the largest and the smallest rowid, 0 for
  an empty table, and the probe of the binary search,
  \<^verbatim>\<open>select id ... where rowid = m AND user_ts < datetime('now', '-age hours')\<close>, which
  leaves \<^verbatim>\<open>midRowId\<close> at 0 when no row answers. \<open>cutoff\<close> is that datetime in seconds.
\<close>

definition max_rowid :: "reading_row list \<Rightarrow> nat" where
  "max_rowid rows = (if rows = [] then 0 else Max (set (map rowid rows)))"

definition min_rowid :: "reading_row list \<Rightarrow> nat" where
  "min_rowid rows = (if rows = [] then 0 else Min (set (map rowid rows)))"

definition probe_rowid :: "reading_row list \<Rightarrow> int \<Rightarrow> nat \<Rightarrow> nat" where
  "probe_rowid rows cutoff m =
     (case filter (\<lambda>rw. rowid rw = m \<and> user_ts rw < cutoff) rows of
        [] \<Rightarrow> 0
      | rw # _ \<Rightarrow> rowid rw)"

text \<open>
  The binary search \<^verbatim>\<open>while (l <= r)\<close> on \<^verbatim>\<open>unsigned long\<close> values, with its \<^verbatim>\<open>break\<close>.
  The result is \<open>m\<close> at the exit, the new \<^verbatim>\<open>rowidLimit\<close>; \<open>None\<close> is a search that never
  ends. \<^verbatim>\<open>r = m - 1\<close> and \<^verbatim>\<open>l = m + 1\<close> wrap around.
\<close>

partial_function (option) refine_limit :: "(nat \<Rightarrow> nat) \<Rightarrow> nat \<Rightarrow> nat \<Rightarrow> nat \<Rightarrow> nat option" where
  "refine_limit probe l r m =
     (if l \<le> r then
        let prev_m = m;
            m' = u64 (int l + int ((r - l) div 2))
        in if prev_m = m' then Some m'
           else if probe m' = 0
                then refine_limit probe l (u64 (int m' - 1)) (u64 (int m' - 1))
                else refine_limit probe (u64 (int m' + 1)) r m'
      else Some m)"

declare refine_limit.simps [code]

text \<open>
  The recomputation of the block size, run after every 30th block. The two averages
  are computed on \<^verbatim>\<open>unsigned int\<close> and stored in \<^verbatim>\<open>int\<close>s. The single precision
  arithmetic is a parameter: \<open>scale blockSize avg\<close> stands for the \<^verbatim>\<open>int\<close> that
  \<^verbatim>\<open>(float)purgeBlockSize * ratio\<close> becomes, \<^verbatim>\<open>ratio\<close> being
  \<^verbatim>\<open>(float)TARGET_PURGE_BLOCK_DEL_TIME / (float)avg\<close> brought into \<open>[0.5, 2.0]\<close>.
\<close>

definition recalc_block_size :: "(int \<Rightarrow> int \<Rightarrow> int) \<Rightarrow> int \<Rightarrow> int \<Rightarrow> int" where
  "recalc_block_size scale avg purgeBlockSize =
     (let deviation = \<bar>s32 (avg - TARGET_PURGE_BLOCK_DEL_TIME)\<bar>
      in if deviation > c_div TARGET_PURGE_BLOCK_DEL_TIME 10 then
           let p1 = scale purgeBlockSize avg;
               p2 = s32 (c_div p1 PURGE_BLOCK_SZ_GRANULARITY * PURGE_BLOCK_SZ_GRANULARITY);
               p3 = (if p2 < MIN_PURGE_DELETE_BLOCK_SIZE then MIN_PURGE_DELETE_BLOCK_SIZE else p2);
               p4 = (if p3 > MAX_PURGE_DELETE_BLOCK_SIZE then MAX_PURGE_DELETE_BLOCK_SIZE else p3)
           in p4
         else purgeBlockSize)"

text \<open>
  The same product computed exactly: an infinite ratio (\<open>avg = 0\<close>) is above 2.0, and
  the conversion to \<^verbatim>\<open>int\<close> drops the fraction of a value that is not negative.
\<close>

definition exact_scale :: "int \<Rightarrow> int \<Rightarrow> int" where
  "exact_scale blockSize avg =
     (let ratio = (if avg = 0 then 2
                   else max (1 / 2) (min 2 (real_of_int TARGET_PURGE_BLOCK_DEL_TIME / real_of_int avg)))
      in \<lfloor>real_of_int blockSize * ratio\<rfloor>)"

text \<open>
  The state of the delete loop: the local variables, the process-wide
  \<^verbatim>\<open>purgeBlockSize\<close>, the table, and the upper bounds of the \<^verbatim>\<open>DELETE\<close>s issued so far.
\<close>

record purge_state =
  rowidMin :: nat
  blocks :: int
  totTime :: nat
  prevBlocks :: nat
  prevTotTime :: nat
  deletedRows :: nat
  purgeBlockSize :: int
  readings_1 :: "reading_row list"
  deletes :: "nat list"

definition block_averages :: "purge_state \<Rightarrow> int" where
  "block_averages st =
     (let prevAvg = s32 (int (prevTotTime st div (if prevBlocks st \<noteq> 0 then prevBlocks st else 1)));
          currAvg = s32 (int (u32 (int (totTime st) - int (prevTotTime st)) div
                              u32 (blocks st - int (prevBlocks st))));
          avg = c_div (s32 (s32 ((if prevAvg \<noteq> 0 then prevAvg else currAvg) * 5) + s32 (currAvg * 5))) 10
      in avg)"

text \<open>
  One turn of the loop \<^verbatim>\<open>while (rowidMin < rowidLimit)\<close>, for a block whose \<^verbatim>\<open>DELETE\<close>
  took \<open>usecs\<close> microseconds and succeeded or not. A failed \<^verbatim>\<open>DELETE\<close> makes the method
  return 0: the result is then \<open>Inl\<close> of the state at that point. (The sleeps of the
  loop change no variable and are left out.)
\<close>

definition purge_block ::
  "(int \<Rightarrow> int \<Rightarrow> int) \<Rightarrow> nat \<Rightarrow> nat \<times> bool \<Rightarrow> purge_state \<Rightarrow> purge_state + purge_state" where
  "purge_block scale rowidLimit sample st =
     (let blocks' = blocks st + 1;
          moved = u64 (int (rowidMin st) + purgeBlockSize st);
          rowidMin' = (if moved > rowidLimit then rowidLimit else moved);
          st1 = st\<lparr>blocks := blocks', rowidMin := rowidMin',
                   deletes := deletes st @ [rowidMin'],
                   totTime := u32 (int (totTime st) + int (fst sample))\<rparr>
      in if \<not> snd sample then Inl st1
         else
           let rowsAffected = length (filter (\<lambda>rw. rowid rw \<le> rowidMin') (readings_1 st1));
               st2 = st1\<lparr>readings_1 := filter (\<lambda>rw. \<not> rowid rw \<le> rowidMin') (readings_1 st1),
                         deletedRows := u32 (int (deletedRows st1) + int rowsAffected)\<rparr>
           in if blocks' mod RECALC_PURGE_BLOCK_SIZE_NUM_BLOCKS = 0
              then Inr (st2\<lparr>purgeBlockSize := recalc_block_size scale (block_averages st2) (purgeBlockSize st2),
                            prevBlocks := u32 (blocks st2),
                            prevTotTime := totTime st2\<rparr>)
              else Inr st2)"

text \<open>
  The loop, for the successive blocks' times and statuses. \<open>None\<close> means that the
  samples given ran out before the loop ended.
\<close>

fun purge_blocks ::
  "(int \<Rightarrow> int \<Rightarrow> int) \<Rightarrow> nat \<Rightarrow> (nat \<times> bool) list \<Rightarrow> purge_state \<Rightarrow> (purge_state + purge_state) option" where
  "purge_blocks scale rowidLimit samples st =
     (if rowidMin st < rowidLimit then
        (case samples of
           [] \<Rightarrow> None
         | sample # later \<Rightarrow>
             (case purge_block scale rowidLimit sample st of
                Inl st' \<Rightarrow> Some (Inl st')
              | Inr st' \<Rightarrow> purge_blocks scale rowidLimit later st'))
      else Some (Inr st))"

declare purge_blocks.simps [simp del]

text \<open>
  What \<^verbatim>\<open>purgeReadings\<close> gives back: the returned number, the four numbers of the
  result document, the table, the \<^verbatim>\<open>DELETE\<close> bounds and \<^verbatim>\<open>purgeBlockSize\<close> afterwards.
\<close>

record purge_result =
  returned :: nat
  removed :: nat
  unsentPurged :: int
  unsentRetained :: int
  readings :: int
  table_after :: "reading_row list"
  delete_bounds :: "nat list"
  block_size_after :: int

definition nothing_purged :: "reading_row list \<Rightarrow> int \<Rightarrow> purge_result" where
  "nothing_purged rows pbs =
     \<lparr>returned = 0, removed = 0, unsentPurged = 0, unsentRetained = 0, readings = 0,
      table_after = rows, delete_bounds = [], block_size_after = pbs\<rparr>"

text \<open>
  The last part of \<^verbatim>\<open>purgeReadings\<close>, from the count of the unsent rows on: the delete
  loop runs from \<^verbatim>\<open>rowidMin = minrowidLimit\<close> up to the refined \<^verbatim>\<open>rowidLimit\<close>, and the
  result document is built. (The read of \<^verbatim>\<open>lastPurgedId\<close> leaves the variable as it was
  when no row answers; it is taken as 0 then.)
\<close>

definition purge_delete ::
  "(int \<Rightarrow> int \<Rightarrow> int) \<Rightarrow> (nat \<times> bool) list \<Rightarrow> int \<Rightarrow> reading_row list \<Rightarrow>
   nat \<Rightarrow> nat \<Rightarrow> nat \<Rightarrow> nat \<Rightarrow> nat \<Rightarrow> purge_result option" where
  "purge_delete scale samples pbs rows flags sent maxrowidLimit minrowidLimit rowidLimit =
     (let lastPurgedId = (if rowidLimit \<in> set (map rowid rows) then int rowidLimit else 0);
          unsent0 = (if flags mod 2 = 0 \<and> sent \<noteq> 0 \<and> lastPurgedId > int sent
                     then s32 (int rowidLimit - int sent) else 0)
      in (case purge_blocks scale rowidLimit samples
                 \<lparr>rowidMin = minrowidLimit, blocks = 0, totTime = 0, prevBlocks = 0,
                  prevTotTime = 0, deletedRows = 0, purgeBlockSize = pbs,
                  readings_1 = rows, deletes = []\<rparr> of
            None \<Rightarrow> None
          | Some (Inl st) \<Rightarrow>
              Some ((nothing_purged (readings_1 st) (purgeBlockSize st))
                      \<lparr>delete_bounds := deletes st\<rparr>)
          | Some (Inr st) \<Rightarrow>
              Some \<lparr>returned = deletedRows st,
                    removed = deletedRows st,
                    unsentPurged = (if sent = 0 then int (deletedRows st) else unsent0),
                    unsentRetained = int maxrowidLimit - int rowidLimit,
                    readings = int maxrowidLimit + 1 - int minrowidLimit - int (deletedRows st),
                    table_after = readings_1 st,
                    delete_bounds = deletes st,
                    block_size_after = purgeBlockSize st\<rparr>))"

text \<open>
  \<^verbatim>\<open>purgeReadings(age, flags, sent, result)\<close> on the table \<open>rows\<close> at time \<open>now\<close> (in
  seconds), with \<^verbatim>\<open>purgeBlockSize\<close> at \<open>pbs\<close>. The statements other than the \<^verbatim>\<open>DELETE\<close>s
  are taken to succeed (a failing one makes the method return 0 on the spot, before
  any \<^verbatim>\<open>DELETE\<close>). An age of 0 is replaced by the age of the oldest row divided by 360.
  \<open>None\<close> is a call that does not return.
\<close>

definition purge_age :: "int \<Rightarrow> reading_row list \<Rightarrow> nat \<Rightarrow> nat" where
  "purge_age now rows age =
     (if age = 0
      then (if rows = [] then 0
            else u64 (s32 (c_div (now - Min (set (map user_ts rows))) 360)))
      else age)"

definition purgeReadings ::
  "(int \<Rightarrow> int \<Rightarrow> int) \<Rightarrow> (nat \<times> bool) list \<Rightarrow> int \<Rightarrow> int \<Rightarrow> reading_row list \<Rightarrow>
   nat \<Rightarrow> nat \<Rightarrow> nat \<Rightarrow> purge_result option" where
  "purgeReadings scale samples now pbs rows age flags sent =
     (let rowidLimit = max_rowid rows;
          maxrowidLimit = rowidLimit;
          minrowidLimit = min_rowid rows;
          age' = purge_age now rows age;
          l = minrowidLimit;
          r = max (if flags mod 2 = 1 \<and> sent \<noteq> 0 then min sent rowidLimit else rowidLimit) l
      in if l = r then Some (nothing_purged rows pbs)
         else
           (case refine_limit (probe_rowid rows (now - int age' * 3600)) l r l of
              None \<Rightarrow> None
            | Some rowidLimit' \<Rightarrow>
                if minrowidLimit = rowidLimit' then Some (nothing_purged rows pbs)
                else purge_delete scale samples pbs rows flags sent
                       maxrowidLimit minrowidLimit rowidLimit'))"

text \<open>The state a delete loop has reached, whether it ended or returned early.\<close>

definition state_of :: "purge_state + purge_state \<Rightarrow> purge_state" where
  "state_of res = (case res of Inl st \<Rightarrow> st | Inr st \<Rightarrow> st)"

text \<open>
  An example table: rowids 0, 1, 3, 5 and 6 (2 and 4 went to the tables of other
  assets), where the rows 1 to 6 are 100 hours old and the row 0 is one hour old.
\<close>

definition gap_table :: "reading_row list" where
  "gap_table =
     [\<lparr>rowid = 0, user_ts = 996400\<rparr>, \<lparr>rowid = 1, user_ts = 640000\<rparr>,
      \<lparr>rowid = 3, user_ts = 640000\<rparr>, \<lparr>rowid = 5, user_ts = 640000\<rparr>,
      \<lparr>rowid = 6, user_ts = 640000\<rparr>]"

text \<open>
  An example state of the delete loop: 29 blocks done at 300 ms each, the block size
  at 1000.
\<close>

definition slow_blocks_state :: purge_state where
  "slow_blocks_state =
     \<lparr>rowidMin = 29000, blocks = 29, totTime = 29 * 300000, prevBlocks = 0, prevTotTime = 0,
      deletedRows = 0, purgeBlockSize = 1000, readings_1 = [], deletes = []\<rparr>"

section \<open>Properties of the SQL retry executor\<close>

lemma lock_status_iff: "lock_status rc \<longleftrightarrow> rc = SQLITE_LOCKED \<or> rc = SQLITE_BUSY"
  by (simp add: lock_status_def)

lemma calls_append: "calls (xs @ ys) = calls xs @ calls ys"
  by (induction xs rule: calls.induct) auto

lemma calls_attempts: "calls (concat (map (attempt db) js)) = map db js"
  by (induction js) (auto simp: attempt_def)

lemma SQLexec_loop_stop:
  "\<not> (r + 1 < MAX_RETRIES \<and> lock_status (db r)) \<Longrightarrow>
   SQLexec_loop db r = (db r, attempt db r)"
  by (subst SQLexec_loop.simps) (auto simp: Let_def lock_status_def attempt_def)

lemma SQLexec_loop_again:
  "r + 1 < MAX_RETRIES \<Longrightarrow> lock_status (db r) \<Longrightarrow>
   SQLexec_loop db r =
     (fst (SQLexec_loop db (r + 1)), attempt db r @ snd (SQLexec_loop db (r + 1)))"
  by (subst SQLexec_loop.simps) (auto simp: Let_def lock_status_def attempt_def split: prod.splits)

lemma SQLexec_loop_policy:
  "r < MAX_RETRIES \<Longrightarrow> \<exists>n. retry_policy db r n (SQLexec_loop db r)"
proof (induction "MAX_RETRIES - r" arbitrary: r)
  case 0
  then show ?case by simp
next
  case (Suc d)
  show ?case
  proof (cases "r + 1 < MAX_RETRIES \<and> lock_status (db r)")
    case False
    then have eq: "SQLexec_loop db r = (db r, attempt db r)"
      by (rule SQLexec_loop_stop)
    have "retry_policy db r 1 (SQLexec_loop db r)"
      unfolding eq retry_policy_def prod.case using False Suc.prems by auto
    then show ?thesis ..
  next
    case True
    obtain rc tr where res: "SQLexec_loop db (r + 1) = (rc, tr)" by force
    have "\<exists>n. retry_policy db (r + 1) n (SQLexec_loop db (r + 1))"
      using Suc.hyps(1)[of "r + 1"] Suc.hyps(2) True by simp
    then obtain n where "retry_policy db (r + 1) n (rc, tr)" unfolding res ..
    then have ih: "1 \<le> n" "r + 1 + n \<le> MAX_RETRIES"
      "tr = concat (map (attempt db) [r + 1 ..< r + 1 + n])"
      "rc = db (r + 1 + n - 1)"
      "\<forall>j. r + 1 \<le> j \<and> j < r + 1 + n - 1 \<longrightarrow> lock_status (db j)"
      "r + 1 + n < MAX_RETRIES \<longrightarrow> \<not> lock_status rc"
      unfolding retry_policy_def prod.case by blast+
    have eq: "SQLexec_loop db r = (rc, attempt db r @ tr)"
      using True res by (simp add: SQLexec_loop_again)
    have c1: "attempt db r @ tr = concat (map (attempt db) [r ..< r + Suc n])"
    proof -
      have "[r ..< r + Suc n] = r # [r + 1 ..< r + 1 + n]"
        by (subst upt_conv_Cons) simp_all
      then show ?thesis using ih(3) by simp
    qed
    have c2: "\<forall>j. r \<le> j \<and> j < r + Suc n - 1 \<longrightarrow> lock_status (db j)"
    proof (intro allI impI)
      fix j assume "r \<le> j \<and> j < r + Suc n - 1"
      then have "j = r \<or> (r + 1 \<le> j \<and> j < r + 1 + n - 1)" by arith
      then show "lock_status (db j)" using True ih(5) by blast
    qed
    have "retry_policy db r (Suc n) (SQLexec_loop db r)"
      unfolding eq retry_policy_def prod.case
      using c1 c2 ih(1,2,4,6) by simp
    then show ?thesis ..
  qed
qed

lemma SQLStep_loop_eq: "SQLStep_loop db r = SQLexec_loop db r"
proof (induction db r rule: SQLexec_loop.induct)
  case (1 db r)
  show ?case
  proof (cases "r + 1 < MAX_RETRIES \<and> (db r = SQLITE_LOCKED \<or> db r = SQLITE_BUSY)")
    case True
    then have "SQLStep_loop db (r + 1) = SQLexec_loop db (r + 1)"
      using 1[OF refl refl refl] by simp
    with True show ?thesis
      by (subst SQLStep_loop.simps, subst SQLexec_loop.simps) (simp add: Let_def)
  next
    case False
    then show ?thesis
      by (subst SQLStep_loop.simps, subst SQLexec_loop.simps) (auto simp add: Let_def)
  qed
qed

lemma SQLexec_policy:
  fixes db :: "nat \<Rightarrow> int"
  defines "n \<equiv> length (calls (snd (SQLexec db)))"
  shows "1 \<le> n \<and> n \<le> MAX_RETRIES \<and>
       snd (SQLexec db) = concat (map (attempt db) [0 ..< n]) \<and>
       fst (SQLexec db) = db (n - 1) \<and>
       (\<forall>j < n - 1. lock_status (db j)) \<and>
       (n < MAX_RETRIES \<longrightarrow> \<not> lock_status (fst (SQLexec db)))"
proof -
  have "0 < MAX_RETRIES" by (simp add: MAX_RETRIES_def)
  then obtain m where m: "retry_policy db 0 m (SQLexec db)"
    unfolding SQLexec_def using SQLexec_loop_policy[of 0 db] by blast
  obtain rc tr where res: "SQLexec db = (rc, tr)" by force
  from m have tr: "tr = concat (map (attempt db) [0 ..< m])"
    unfolding res retry_policy_def by simp
  have "n = m" unfolding n_def res snd_conv tr calls_attempts by simp
  with m show ?thesis unfolding res retry_policy_def by auto
qed

text \<open>
  Claim C6. For every behaviour \<open>db\<close> of the database, \<^verbatim>\<open>SQLexec\<close> and \<^verbatim>\<open>SQLStep\<close>
  make \<open>n\<close> calls with \<open>1 \<le> n \<le> MAX_RETRIES = 40\<close>; every call but the last
  answered BUSY or LOCKED, so a statement is tried again only after one of these two; a
  run that stops before the 40th call stops on the first status that is neither, and
  that status is returned at once; the status returned is always the one of the last
  call, which after 40 calls is the last BUSY or LOCKED; and every call that answered
  BUSY or LOCKED is followed, before the next call, by \<^verbatim>\<open>usleep(retries * RETRY_BACKOFF)\<close>
  with \<open>RETRY_BACKOFF = 100\<close> microseconds, \<open>retries\<close> being the number of calls made so
  far.
\<close>

theorem SQL_retry_executor:
  "MAX_RETRIES = 40 \<and> RETRY_BACKOFF = 100 \<and>
   (\<forall>res \<in> {SQLexec db, SQLStep db}.
      let n = length (calls (snd res)) in
        1 \<le> n \<and> n \<le> MAX_RETRIES \<and>
        calls (snd res) = map db [0 ..< n] \<and>
        fst res = db (n - 1) \<and>
        (\<forall>j < n - 1. db j = SQLITE_BUSY \<or> db j = SQLITE_LOCKED) \<and>
        (n < MAX_RETRIES \<longrightarrow> fst res \<noteq> SQLITE_BUSY \<and> fst res \<noteq> SQLITE_LOCKED) \<and>
        snd res = concat (map (\<lambda>j. Call (db j) #
                     (if db j = SQLITE_BUSY \<or> db j = SQLITE_LOCKED
                      then [Usleep ((j + 1) * RETRY_BACKOFF)] else [])) [0 ..< n]))"
proof -
  have same: "SQLStep db = SQLexec db"
    by (simp add: SQLStep_def SQLexec_def SQLStep_loop_eq)
  have att: "attempt db = (\<lambda>j. Call (db j) #
                     (if db j = SQLITE_BUSY \<or> db j = SQLITE_LOCKED
                      then [Usleep ((j + 1) * RETRY_BACKOFF)] else []))"
    by (auto simp: attempt_def lock_status_def fun_eq_iff)
  note p = SQLexec_policy[of db]
  have c: "calls (snd (SQLexec db)) = map db [0 ..< length (calls (snd (SQLexec db)))]"
    using p calls_attempts[of db "[0 ..< length (calls (snd (SQLexec db)))]"] by metis
  show ?thesis
    unfolding same Let_def
    using p c by (auto simp: MAX_RETRIES_def RETRY_BACKOFF_def lock_status_def att)
qed

text \<open>
  The theorem at a database that is busy twice and then reports an error: three calls,
  sleeps of 100 and 200 microseconds, and the error returned without a further call.
\<close>

theorem SQL_retry_executor_witness:
  "(let db = (\<lambda>k. if k < 2 then SQLITE_BUSY else SQLITE_ERROR);
        res = SQLexec db; n = length (calls (snd res))
    in res \<in> {SQLexec db, SQLStep db} \<and> n = 3 \<and> (0::nat) < n - 1 \<and> n < MAX_RETRIES \<and>
       fst res = SQLITE_ERROR \<and>
       snd res = [Call SQLITE_BUSY, Usleep 100, Call SQLITE_BUSY, Usleep 200, Call SQLITE_ERROR])"
  using SQL_retry_executor [of "\<lambda>k. if k < 2 then SQLITE_BUSY else SQLITE_ERROR"]
  by (simp add: SQLexec_def SQLexec_loop.simps Let_def MAX_RETRIES_def RETRY_BACKOFF_def
        SQLITE_BUSY_def SQLITE_LOCKED_def SQLITE_ERROR_def)

section \<open>Properties of the global ID\<close>

lemma sql_max_eq: "sql_max xs = (if xs = [] then None else Some (Max (set xs)))"
proof (induction xs)
  case Nil
  then show ?case by simp
next
  case (Cons x xs)
  then show ?case by (cases "xs = []") (simp_all add: max.commute)
qed

lemma sql_max_append:
  "sql_max (xs @ ys) =
     (case sql_max xs of None \<Rightarrow> sql_max ys
      | Some a \<Rightarrow> (case sql_max ys of None \<Rightarrow> Some a | Some b \<Rightarrow> Some (max a b)))"
  by (induction xs) (auto split: option.splits simp: max.assoc)

lemma sql_max_union:
  "sql_max_opt (map (\<lambda>t. sql_max (ids t)) ts) = sql_max (concat (map ids ts))"
proof (induction ts)
  case Nil
  then show ?case by simp
next
  case (Cons t ts)
  show ?case
  proof (cases "sql_max (ids t)")
    case None
    then have "ids t = []" by (cases "ids t") (auto split: option.splits)
    with None Cons show ?thesis by simp
  next
    case (Some a)
    with Cons show ?thesis by (simp add: sql_max_append)
  qed
qed

lemma s32_id: "- (2 ^ 31) \<le> x \<Longrightarrow> x < 2 ^ 31 \<Longrightarrow> s32 x = x"
  by (simp add: s32_def)

lemma calculateGlobalId_max:
  assumes "\<not> fails PrepareSelectMaxId" "\<not> fails StepSelectMaxId"
  shows "calculateGlobalId fails cat db =
     (let tables = (if m_AssetReadingCatalogue cat = [] then [1]
                    else map (\<lambda>item. fst (snd item)) (m_AssetReadingCatalogue cat));
          ids = concat (map (readings_ids db) tables)
      in if ids = [] then 1 else s32 (s32 (Max (set ids)) + 1))"
proof -
  have "calculateGlobalId fails cat db =
     s32 (sqlite3_column_int
       (sql_max (concat (map (readings_ids db)
          (if m_AssetReadingCatalogue cat = [] then [1]
           else map (\<lambda>item. fst (snd item)) (m_AssetReadingCatalogue cat))))) + 1)"
    using assms unfolding calculateGlobalId_def Let_def sql_max_union by simp
  moreover have "s32 (s32 0 + 1) = 1" by (simp add: s32_def)
  ultimately show ?thesis
    unfolding Let_def sql_max_eq sqlite3_column_int_def by simp
qed

text \<open>
  Claim C1, as the code has it. The service has issued id 42, so \<^verbatim>\<open>m_globalId\<close> is 43;
  \<^verbatim>\<open>storeGlobalId\<close> succeeds and leaves \<open>-43\<close> in \<^verbatim>\<open>configuration_readings\<close>, not 43;
  the next \<^verbatim>\<open>evaluateGlobalId\<close> finds a value other than \<open>-1\<close> and adopts \<open>-43\<close> as the
  next ID, where the claim has 43.
\<close>

theorem storeGlobalId_stores_negated:
  "fst (getGlobalId (one_asset_catalogue 42)) = 42 \<and>
   m_globalId (snd (getGlobalId (one_asset_catalogue 42))) = 43 \<and>
   storeGlobalId no_failure (one_asset_catalogue 43) (db_max42 (- 1)) = (True, db_max42 (- 43)) \<and>
   fst (evaluateGlobalId no_failure (one_asset_catalogue 0) (db_max42 (- 43))) \<and>
   m_globalId (fst (snd (evaluateGlobalId no_failure (one_asset_catalogue 0) (db_max42 (- 43))))) = - 43"
  by (simp add: getGlobalId_def storeGlobalId_def evaluateGlobalId_def one_asset_catalogue_def
        db_max42_def no_failure_def Let_def sqlite3_column_int_def s32_def)

text \<open>
  Claim C2 as stated fails where the stored value is below 1 and is not \<open>-1\<close>: with 0
  stored and 42 the largest id of the readings tables, the claim has 43 as the next ID;
  the code adopts 0.
\<close>

theorem evaluateGlobalId_adopts_zero:
  "\<not> (1 \<le> hd (configuration_readings (db_max42 0))) \<and>
   calculateGlobalId no_failure (one_asset_catalogue 7) (db_max42 0) = 43 \<and>
   m_globalId (fst (snd (evaluateGlobalId no_failure (one_asset_catalogue 7) (db_max42 0)))) = 0"
  by (simp add: evaluateGlobalId_def calculateGlobalId_def one_asset_catalogue_def
        db_max42_def no_failure_def Let_def sqlite3_column_int_def s32_def)

text \<open>
  Claim C2, amended. When every statement succeeds, \<^verbatim>\<open>evaluateGlobalId\<close> returns true
  and: with no row stored, 1 is adopted as the next ID and inserted; a stored global ID
  is read into a 32-bit \<^verbatim>\<open>int\<close>, and when the value read is other than \<open>-1\<close> it is
  adopted as it is (it is the stored value itself when that fits in 32 bits); when the
  value read is \<open>-1\<close> the next ID is 1 if the readings tables of the catalogue
  (\<^verbatim>\<open>readings_1\<close> when the catalogue is empty) hold no row, and \<open>max(id) + 1\<close> over these
  tables if \<open>max(id)\<close> fits in 32 bits and is below \<open>2^31 - 1\<close>; in every case the table
  then holds a row and every row of it holds \<open>-1\<close>.
\<close>

theorem evaluateGlobalId_boot:
  assumes ok: "\<forall>s. \<not> fails s"
  shows "(case evaluateGlobalId fails cat db of (r, cat', db') \<Rightarrow>
           r \<and>
           (case configuration_readings db of
              [] \<Rightarrow> m_globalId cat' = 1
            | stored # _ \<Rightarrow>
                if s32 stored \<noteq> - 1
                then m_globalId cat' = s32 stored \<and>
                     (- (2 ^ 31) \<le> stored \<and> stored < 2 ^ 31 \<longrightarrow> m_globalId cat' = stored)
                else
                  let tables = (if m_AssetReadingCatalogue cat = [] then [1]
                                else map (\<lambda>item. fst (snd item)) (m_AssetReadingCatalogue cat));
                      ids = concat (map (readings_ids db) tables)
                  in if ids = [] then m_globalId cat' = 1
                     else - (2 ^ 31) \<le> Max (set ids) \<and> Max (set ids) < 2 ^ 31 - 1 \<longrightarrow>
                          m_globalId cat' = Max (set ids) + 1) \<and>
           configuration_readings db' \<noteq> [] \<and>
           (\<forall>g \<in> set (configuration_readings db'). g = - 1))"
proof (cases "configuration_readings db")
  case Nil
  then show ?thesis using ok
    by (simp add: evaluateGlobalId_def Let_def)
next
  case (Cons stored rest)
  show ?thesis
  proof (cases "s32 stored = - 1")
    case True
    define ids where "ids = concat (map (readings_ids db)
      (if m_AssetReadingCatalogue cat = [] then [1]
       else map (\<lambda>item. fst (snd item)) (m_AssetReadingCatalogue cat)))"
    have "calculateGlobalId fails (cat\<lparr>m_globalId := - 1\<rparr>) db =
      (let tables = (if m_AssetReadingCatalogue cat = [] then [1]
                     else map (\<lambda>item. fst (snd item)) (m_AssetReadingCatalogue cat));
           ids = concat (map (readings_ids db) tables)
       in if ids = [] then 1 else s32 (s32 (Max (set ids)) + 1))"
      using ok by (simp add: calculateGlobalId_max)
    then have calc: "calculateGlobalId fails (cat\<lparr>m_globalId := - 1\<rparr>) db =
      (if ids = [] then 1 else s32 (s32 (Max (set ids)) + 1))"
      unfolding Let_def ids_def [symmetric] .
    have fit: "s32 (s32 (Max (set ids)) + 1) = Max (set ids) + 1"
      if "- (2 ^ 31) \<le> Max (set ids)" "Max (set ids) < 2 ^ 31 - 1"
      using that by (simp add: s32_id)
    have res: "evaluateGlobalId fails cat db =
      (True, cat\<lparr>m_globalId := (if ids = [] then 1 else s32 (s32 (Max (set ids)) + 1))\<rparr>,
       db\<lparr>configuration_readings := map (\<lambda>_. - 1) (configuration_readings db)\<rparr>)"
      using ok Cons True
      by (simp add: evaluateGlobalId_def sqlite3_column_int_def calc Let_def)
    show ?thesis
      unfolding res Cons Let_def ids_def [symmetric] using True fit
      by (cases "ids = []") simp_all
  next
    case False
    have res: "evaluateGlobalId fails cat db =
      (True, cat\<lparr>m_globalId := s32 stored\<rparr>,
       db\<lparr>configuration_readings := map (\<lambda>_. - 1) (configuration_readings db)\<rparr>)"
      using ok Cons False
      by (simp add: evaluateGlobalId_def sqlite3_column_int_def Let_def)
    show ?thesis
      unfolding res using Cons False
      by (auto simp add: s32_id)
  qed
qed

text \<open>
  The theorem where nothing fails, at two inputs. The crash case of the spec's
  scenario 6: \<open>-1\<close> is stored, the largest id is 42, and 43 is adopted. And a stored 5,
  which is adopted as it is.
\<close>

theorem evaluateGlobalId_boot_witness:
  "(\<forall>s. \<not> no_failure s) \<and>
   s32 (- 1) = - 1 \<and>
   - (2 ^ 31) \<le> Max (set [40, 41, 42 :: int]) \<and> Max (set [40, 41, 42 :: int]) < 2 ^ 31 - 1 \<and>
   fst (evaluateGlobalId no_failure (one_asset_catalogue 0) (db_max42 (- 1))) \<and>
   m_globalId (fst (snd (evaluateGlobalId no_failure (one_asset_catalogue 0) (db_max42 (- 1))))) = 43 \<and>
   configuration_readings (snd (snd (evaluateGlobalId no_failure (one_asset_catalogue 0) (db_max42 (- 1))))) = [- 1] \<and>
   s32 5 \<noteq> - 1 \<and> - (2 ^ 31) \<le> (5 :: int) \<and> (5 :: int) < 2 ^ 31 \<and>
   m_globalId (fst (snd (evaluateGlobalId no_failure (one_asset_catalogue 0) (db_max42 5)))) = 5"
  using evaluateGlobalId_boot [of no_failure "one_asset_catalogue 0" "db_max42 (- 1)"]
        evaluateGlobalId_boot [of no_failure "one_asset_catalogue 0" "db_max42 5"]
  by (simp add: evaluateGlobalId_def calculateGlobalId_def one_asset_catalogue_def
        db_max42_def no_failure_def Let_def sqlite3_column_int_def s32_def)
section \<open>Properties of the resend queue\<close>

lemma remove_readings_drop:
  "remove_readings n q s =
     (drop n q, s\<lparr>m_discardedReadings := m_discardedReadings s + int (min n (length q))\<rparr>)"
  by (induction n q s rule: remove_readings.induct) (simp_all add: logDiscardedStat_def)

lemma resend_turn_drop:
  assumes "m_resendQueues s = q # rest" and "5 < m_failCnt s + 1"
  shows "resend_turn False s =
           s\<lparr>m_storageFailed := True, m_storesFailed := m_storesFailed s + 1,
             m_discardedReadings := m_discardedReadings s + int (min 5 (length q)),
             m_resendQueues := (if length q \<le> 5 then rest else drop 5 q # rest),
             m_failCnt := 0\<rparr>"
  using assms by (simp add: resend_turn_def remove_readings_drop Let_def)

lemma resend_turn_keep:
  assumes "m_resendQueues s = q # rest" and "m_failCnt s + 1 \<le> 5"
  shows "resend_turn False s =
           s\<lparr>m_storageFailed := True, m_storesFailed := m_storesFailed s + 1,
             m_failCnt := m_failCnt s + 1\<rparr>"
  using assms by (simp add: resend_turn_def Let_def)

lemma resend_turns_keep:
  assumes "m_resendQueues s = q # rest" and "m_failCnt s + int k \<le> 5"
  shows "m_resendQueues ((resend_turn False ^^ k) s) = q # rest \<and>
         m_failCnt ((resend_turn False ^^ k) s) = m_failCnt s + int k \<and>
         m_discardedReadings ((resend_turn False ^^ k) s) = m_discardedReadings s"
  using assms
proof (induction k)
  case 0
  then show ?case by simp
next
  case (Suc k)
  let ?t = "(resend_turn False ^^ k) s"
  have ih: "m_resendQueues ?t = q # rest" "m_failCnt ?t = m_failCnt s + int k"
    "m_discardedReadings ?t = m_discardedReadings s"
    using Suc by simp_all
  have "m_failCnt ?t + 1 \<le> 5" using ih(2) Suc.prems(2) by simp
  from resend_turn_keep[OF ih(1) this] ih show ?case by simp
qed

text \<open>
  Claim C8. The first failure to persist a batch (in \<^verbatim>\<open>processQueue\<close>'s last part) puts
  it on the resend queue with the failure counter at 1. While the batch is the first
  resend queue, a failed resend that leaves the counter at 5 or below removes nothing;
  a failed resend that takes the counter above 5 removes exactly the first 5 readings
  of the batch, or all of them when it has at most 5 (the batch then leaves the resend
  queue), adds their number to the DISCARDED count and sets the counter to 0. So from
  the counter at 1 the first four failed resends keep the batch whole and the fifth,
  the sixth failure in a row, drops its head.
\<close>

theorem resend_drops_five_after_six_failures:
  assumes "m_resendQueues s = q # rest"
  shows "(d \<noteq> [] \<longrightarrow> m_failCnt (store_data False d s0) = 1 \<and>
            m_resendQueues (store_data False d s0) = m_resendQueues s0 @ [d]) \<and>
         (m_failCnt s + 1 \<le> 5 \<longrightarrow>
            m_resendQueues (resend_turn False s) = q # rest \<and>
            m_discardedReadings (resend_turn False s) = m_discardedReadings s \<and>
            m_failCnt (resend_turn False s) = m_failCnt s + 1) \<and>
         (5 < m_failCnt s + 1 \<longrightarrow>
            m_resendQueues (resend_turn False s) =
              (if length q \<le> 5 then rest else drop 5 q # rest) \<and>
            m_discardedReadings (resend_turn False s) =
              m_discardedReadings s + int (min 5 (length q)) \<and>
            m_failCnt (resend_turn False s) = 0) \<and>
         (m_failCnt s = 1 \<longrightarrow>
            (\<forall>k < 5. m_resendQueues ((resend_turn False ^^ k) s) = q # rest \<and>
                     m_discardedReadings ((resend_turn False ^^ k) s) = m_discardedReadings s) \<and>
            m_resendQueues ((resend_turn False ^^ 5) s) =
              (if length q \<le> 5 then rest else drop 5 q # rest) \<and>
            m_discardedReadings ((resend_turn False ^^ 5) s) =
              m_discardedReadings s + int (min 5 (length q)) \<and>
            m_failCnt ((resend_turn False ^^ 5) s) = 0)"
proof (intro conjI impI)
  assume "d \<noteq> []"
  then show "m_failCnt (store_data False d s0) = 1"
    and "m_resendQueues (store_data False d s0) = m_resendQueues s0 @ [d]"
    by (simp_all add: store_data_def)
next
  assume le: "m_failCnt s + 1 \<le> 5"
  show "m_resendQueues (resend_turn False s) = q # rest"
    and "m_discardedReadings (resend_turn False s) = m_discardedReadings s"
    and "m_failCnt (resend_turn False s) = m_failCnt s + 1"
    using assms by (simp_all add: resend_turn_keep[OF assms le])
next
  assume gt: "5 < m_failCnt s + 1"
  show "m_resendQueues (resend_turn False s) = (if length q \<le> 5 then rest else drop 5 q # rest)"
    and "m_discardedReadings (resend_turn False s) = m_discardedReadings s + int (min 5 (length q))"
    and "m_failCnt (resend_turn False s) = 0"
    by (simp_all add: resend_turn_drop[OF assms gt])
next
  assume one: "m_failCnt s = 1"
  show "\<forall>k < 5. m_resendQueues ((resend_turn False ^^ k) s) = q # rest \<and>
                 m_discardedReadings ((resend_turn False ^^ k) s) = m_discardedReadings s"
  proof (intro allI impI)
    fix k :: nat assume "k < 5"
    then have "m_failCnt s + int k \<le> 5" using one by simp
    from resend_turns_keep[OF assms this]
    show "m_resendQueues ((resend_turn False ^^ k) s) = q # rest \<and>
          m_discardedReadings ((resend_turn False ^^ k) s) = m_discardedReadings s"
      by simp
  qed
  let ?t = "(resend_turn False ^^ 4) s"
  have "m_failCnt s + int 4 \<le> 5" using one by simp
  from resend_turns_keep[OF assms this]
  have t: "m_resendQueues ?t = q # rest" "m_failCnt ?t = 5" "m_discardedReadings ?t = m_discardedReadings s"
    using one by simp_all
  have five: "(resend_turn False ^^ 5) s = resend_turn False ?t"
    by (simp add: eval_nat_numeral)
  have gt: "5 < m_failCnt ?t + 1" using t(2) by simp
  show "m_resendQueues ((resend_turn False ^^ 5) s) = (if length q \<le> 5 then rest else drop 5 q # rest)"
    and "m_discardedReadings ((resend_turn False ^^ 5) s) = m_discardedReadings s + int (min 5 (length q))"
    and "m_failCnt ((resend_turn False ^^ 5) s) = 0"
    unfolding five using t by (simp_all add: resend_turn_drop[OF t(1) gt])
qed

text \<open>
  The theorem on a batch of seven readings that a fresh object fails to store: five
  further failures leave the last two readings in the resend queue, five counted as
  discarded and the counter at 0.
\<close>

theorem resend_drops_five_witness:
  "m_resendQueues (store_data False batch7 ingest0) = batch7 # [] \<and>
   batch7 \<noteq> [] \<and>
   m_failCnt (store_data False batch7 ingest0) = 1 \<and>
   (5::int) < 5 + 1 \<and> (1::int) + 1 \<le> 5 \<and> (4::nat) < 5 \<and>
   m_resendQueues ((resend_turn False ^^ 4) (store_data False batch7 ingest0)) = [batch7] \<and>
   m_resendQueues ((resend_turn False ^^ 5) (store_data False batch7 ingest0)) = [drop 5 batch7] \<and>
   m_discardedReadings ((resend_turn False ^^ 5) (store_data False batch7 ingest0)) = 5 \<and>
   m_failCnt ((resend_turn False ^^ 5) (store_data False batch7 ingest0)) = 0"
proof -
  have q: "m_resendQueues (store_data False batch7 ingest0) = batch7 # []"
    and ne: "batch7 \<noteq> []"
    and c: "m_failCnt (store_data False batch7 ingest0) = 1"
    and d: "m_discardedReadings (store_data False batch7 ingest0) = 0"
    and l: "length batch7 = 7"
    by (simp_all add: store_data_def ingest0_def batch7_def)
  from resend_drops_five_after_six_failures [OF q, of batch7 ingest0] c d l ne q
  show ?thesis by simp
qed

section \<open>Properties of the statistics update\<close>

lemma stats_entries_updates:
  "fst (stats_entries es (u, r, c)) =
     u @ map (\<lambda>(k, n). (map toupper k, n)) (filter (\<lambda>(k, n). n \<noteq> 0) es)"
  by (induction es "(u, r, c)" arbitrary: u r c rule: stats_entries.induct) (simp_all add: Let_def)

lemma stats_entries_readings:
  "fst (snd (stats_entries es (u, r, c))) = r + sum_list (map snd es)"
  by (induction es "(u, r, c)" arbitrary: u r c rule: stats_entries.induct) (simp_all add: Let_def)

text \<open>
  Claim C10 as stated fails: with three readings of one asset pending and nothing
  discarded, the batch submitted holds the asset's row and the READINGS row, and no
  DISCARDED row.
\<close>

theorem updateStats_without_discarded:
  "fst (updateStats (Some 0) pump3_pending) = Some [(''PUMP'', 3), (''READINGS'', 3)]"
  by code_simp

text \<open>
  Claim C10, amended. \<^verbatim>\<open>updateStats\<close> submits a batch exactly when some entry is
  pending. The batch holds, in this order: one row per pending asset with a non-zero
  count, under the upper-cased asset name; the READINGS row, with the sum of the
  pending counts, exactly when that sum is not zero; the DISCARDED row, with
  \<^verbatim>\<open>m_discardedReadings\<close>, exactly when \<^verbatim>\<open>m_discardedReadings\<close> is not zero.
\<close>

theorem updateStats_special_keys:
  "(statsPendingEntries s = [] \<longrightarrow> fst (updateStats rv s) = None) \<and>
   (statsPendingEntries s \<noteq> [] \<longrightarrow>
      fst (updateStats rv s) =
        Some (map (\<lambda>(k, n). (map toupper k, n))
                (filter (\<lambda>(k, n). n \<noteq> 0) (statsPendingEntries s)) @
              (if sum_list (map snd (statsPendingEntries s)) \<noteq> 0
               then [(''READINGS'', sum_list (map snd (statsPendingEntries s)))] else []) @
              (if m_discardedReadings s \<noteq> 0
               then [(''DISCARDED'', m_discardedReadings s)] else [])))"
proof (intro conjI impI)
  assume "statsPendingEntries s = []"
  then show "fst (updateStats rv s) = None" by (simp add: updateStats_def)
next
  assume ne: "statsPendingEntries s \<noteq> []"
  obtain u r c where res: "stats_entries (statsPendingEntries s) ([], 0, statsDbEntriesCache s) = (u, r, c)"
    by (metis prod_cases3)
  have u: "u = map (\<lambda>(k, n). (map toupper k, n)) (filter (\<lambda>(k, n). n \<noteq> 0) (statsPendingEntries s))"
    using stats_entries_updates[of "statsPendingEntries s" "[]" 0 "statsDbEntriesCache s"]
    unfolding res by simp
  have r: "r = sum_list (map snd (statsPendingEntries s))"
    using stats_entries_readings[of "statsPendingEntries s" "[]" 0 "statsDbEntriesCache s"]
    unfolding res by simp
  show "fst (updateStats rv s) =
        Some (map (\<lambda>(k, n). (map toupper k, n))
                (filter (\<lambda>(k, n). n \<noteq> 0) (statsPendingEntries s)) @
              (if sum_list (map snd (statsPendingEntries s)) \<noteq> 0
               then [(''READINGS'', sum_list (map snd (statsPendingEntries s)))] else []) @
              (if m_discardedReadings s \<noteq> 0
               then [(''DISCARDED'', m_discardedReadings s)] else []))"
    using ne unfolding updateStats_def res u[symmetric] r[symmetric]
    by (simp add: Let_def)
qed

text \<open>
  The theorem on an object with two readings discarded and the counts 3 and 0 pending
  for two assets: the batch holds one asset row, READINGS and DISCARDED.
\<close>

theorem updateStats_special_keys_witness:
  "statsPendingEntries (pump3_pending\<lparr>statsPendingEntries := [(''pump'', 3), (''fan'', 0)],
                                       m_discardedReadings := 2\<rparr>) \<noteq> [] \<and>
   fst (updateStats None (pump3_pending\<lparr>statsPendingEntries := [(''pump'', 3), (''fan'', 0)],
                                         m_discardedReadings := 2\<rparr>)) =
     Some [(map toupper ''pump'', 3), (''READINGS'', 3), (''DISCARDED'', 2)]"
  using updateStats_special_keys
          [of "pump3_pending\<lparr>statsPendingEntries := [(''pump'', 3), (''fan'', 0)],
                             m_discardedReadings := 2\<rparr>" None]
  by (simp add: pump3_pending_def ingest0_def)

section \<open>Properties of the prepared-INSERT retry loop\<close>

lemma step_with_retry_stop:
  "\<not> (r + 1 < PREP_CMD_MAX_RETRIES \<and> lock_status (sqlite3_step env k)) \<Longrightarrow>
   step_with_retry env k j r =
     (sqlite3_step env k, insert_attempt env k j, k + 1,
      if lock_status (sqlite3_step env k) then j + 1 else j)"
  by (subst step_with_retry.simps) (auto simp: Let_def lock_status_def insert_attempt_def)

lemma step_with_retry_again:
  "r + 1 < PREP_CMD_MAX_RETRIES \<Longrightarrow> lock_status (sqlite3_step env k) \<Longrightarrow>
   step_with_retry env k j r =
     (case step_with_retry env (k + 1) (j + 1) (r + 1) of
        (rc, tr, k', j') \<Rightarrow> (rc, insert_attempt env k j @ tr, k', j'))"
  by (subst step_with_retry.simps)
     (auto simp: Let_def lock_status_def insert_attempt_def split: prod.splits)

lemma step_with_retry_policy:
  "r < PREP_CMD_MAX_RETRIES \<Longrightarrow> \<exists>n. insert_policy env k j r n (step_with_retry env k j r)"
proof (induction "PREP_CMD_MAX_RETRIES - r" arbitrary: r k j)
  case 0
  then show ?case by simp
next
  case (Suc d)
  show ?case
  proof (cases "r + 1 < PREP_CMD_MAX_RETRIES \<and> lock_status (sqlite3_step env k)")
    case False
    have "insert_policy env k j r 1 (step_with_retry env k j r)"
      unfolding step_with_retry_stop[OF False] insert_policy_def prod.case
      using False Suc.prems by auto
    then show ?thesis ..
  next
    case True
    obtain rc tr k' j' where res: "step_with_retry env (k + 1) (j + 1) (r + 1) = (rc, tr, k', j')"
      by (metis prod_cases4)
    have "\<exists>n. insert_policy env (k + 1) (j + 1) (r + 1) n (step_with_retry env (k + 1) (j + 1) (r + 1))"
      using Suc.hyps(1)[of "r + 1"] Suc.hyps(2) True by simp
    then obtain n where "insert_policy env (k + 1) (j + 1) (r + 1) n (rc, tr, k', j')"
      unfolding res ..
    then have ih: "1 \<le> n" "r + 1 + n \<le> PREP_CMD_MAX_RETRIES"
      "tr = concat (map (\<lambda>i. insert_attempt env (k + 1 + i) (j + 1 + i)) [0 ..< n])"
      "rc = sqlite3_step env (k + 1 + n - 1)"
      "\<forall>i < n - 1. lock_status (sqlite3_step env (k + 1 + i))"
      "r + 1 + n < PREP_CMD_MAX_RETRIES \<longrightarrow> \<not> lock_status rc"
      "k' = k + 1 + n" "j' = (if lock_status rc then j + 1 + n else j + 1 + n - 1)"
      unfolding insert_policy_def prod.case by blast+
    have eq: "step_with_retry env k j r = (rc, insert_attempt env k j @ tr, k', j')"
      using True res by (simp add: step_with_retry_again)
    have c1: "insert_attempt env k j @ tr =
        concat (map (\<lambda>i. insert_attempt env (k + i) (j + i)) [0 ..< Suc n])"
      unfolding ih(3) by (simp add: map_upt_Suc del: upt_Suc)
    have c2: "\<forall>i < Suc n - 1. lock_status (sqlite3_step env (k + i))"
    proof (intro allI impI)
      fix i assume i: "i < Suc n - 1"
      show "lock_status (sqlite3_step env (k + i))"
      proof (cases i)
        case 0
        then show ?thesis using True by simp
      next
        case (Suc i')
        then have "i' < n - 1" using i by simp
        then show ?thesis using ih(5) Suc by simp
      qed
    qed
    have "insert_policy env k j r (Suc n) (step_with_retry env k j r)"
      unfolding eq insert_policy_def prod.case
      using c1 c2 ih(1,2,4,6,7,8) by simp
    then show ?thesis ..
  qed
qed

lemma step_statuses_attempts:
  "step_statuses (concat (map (\<lambda>i. insert_attempt env (f i) (g i)) is)) =
     map (\<lambda>i. sqlite3_step env (f i)) is"
  by (induction "is") (auto simp: insert_attempt_def)

lemma sleeps_ms_attempts_length:
  "length (sleeps_ms (concat (map (\<lambda>i. insert_attempt env (f i) (g i)) is))) \<le> length is"
  by (induction "is") (auto simp: insert_attempt_def)

lemma sleeps_ms_attempts_range:
  "d \<in> set (sleeps_ms (concat (map (\<lambda>i. insert_attempt env (f i) (g i)) is))) \<Longrightarrow>
   PREP_CMD_RETRY_BASE \<le> d \<and> d < PREP_CMD_RETRY_BASE + PREP_CMD_RETRY_BACKOFF"
  by (induction "is") (auto simp: insert_attempt_def PREP_CMD_RETRY_BACKOFF_def split: if_splits)

text \<open>
  Claim C9 as stated fails on the unit: the base and the jitter bound are 5000 and the
  sum is handed to \<^verbatim>\<open>std::chrono::milliseconds\<close>, so one busy step with jitter 0 sleeps
  5000 ms, which is not below 5 ms + 5 ms.
\<close>

theorem prepared_insert_sleeps_5000_ms:
  "fst (snd (step_with_retry (env_busy_first 1) 0 0 0)) =
     [Step SQLITE_BUSY, Sleep_ms 5000, Step SQLITE_DONE] \<and>
   \<not> ((5000 :: nat) < 5 + 5)"
  by (simp add: step_with_retry.simps env_busy_first_def Let_def PREP_CMD_MAX_RETRIES_def
        PREP_CMD_RETRY_BASE_def PREP_CMD_RETRY_BACKOFF_def
        SQLITE_BUSY_def SQLITE_LOCKED_def SQLITE_DONE_def)

text \<open>
  Claim C9, amended. The retry loop of the prepared \<^verbatim>\<open>INSERT\<close>, which \<^verbatim>\<open>appendReadings\<close>
  and \<^verbatim>\<open>readingStream\<close> both enter with \<^verbatim>\<open>retries = 0\<close>, makes \<open>n\<close> steps with
  \<open>1 \<le> n \<le> PREP_CMD_MAX_RETRIES = 20\<close>; every step but the last answered BUSY or
  LOCKED, and a loop that ends before the 20th step ends on a status that is neither;
  after every step that answered BUSY or LOCKED it sleeps for
  \<^verbatim>\<open>PREP_CMD_RETRY_BASE + random() % PREP_CMD_RETRY_BACKOFF\<close> milliseconds, where both
  constants are 5000: every sleep is at least 5000 ms and below 10000 ms, and there are
  at most 20 of them.
\<close>

theorem prepared_insert_retry:
  "PREP_CMD_MAX_RETRIES = 20 \<and> PREP_CMD_RETRY_BASE = 5000 \<and> PREP_CMD_RETRY_BACKOFF = 5000 \<and>
   (case step_with_retry env k j 0 of
      (rc, tr, k', j') \<Rightarrow>
        let n = length (step_statuses tr) in
          1 \<le> n \<and> n \<le> PREP_CMD_MAX_RETRIES \<and>
          (\<forall>i < n - 1. sqlite3_step env (k + i) = SQLITE_BUSY \<or>
                        sqlite3_step env (k + i) = SQLITE_LOCKED) \<and>
          rc = sqlite3_step env (k + n - 1) \<and>
          (n < PREP_CMD_MAX_RETRIES \<longrightarrow> rc \<noteq> SQLITE_BUSY \<and> rc \<noteq> SQLITE_LOCKED) \<and>
          tr = concat (map (\<lambda>i. Step (sqlite3_step env (k + i)) #
                   (if sqlite3_step env (k + i) = SQLITE_BUSY \<or>
                       sqlite3_step env (k + i) = SQLITE_LOCKED
                    then [Sleep_ms (PREP_CMD_RETRY_BASE +
                                    random_value env (j + i) mod PREP_CMD_RETRY_BACKOFF)]
                    else [])) [0 ..< n]) \<and>
          length (sleeps_ms tr) \<le> PREP_CMD_MAX_RETRIES \<and>
          (\<forall>d \<in> set (sleeps_ms tr). 5000 \<le> d \<and> d < 10000))"
proof -
  obtain rc tr k' j' where res: "step_with_retry env k j 0 = (rc, tr, k', j')"
    by (metis prod_cases4)
  have "0 < PREP_CMD_MAX_RETRIES" by (simp add: PREP_CMD_MAX_RETRIES_def)
  from step_with_retry_policy[OF this, of env k j]
  obtain n where "insert_policy env k j 0 n (rc, tr, k', j')" unfolding res ..
  then have p: "1 \<le> n" "n \<le> PREP_CMD_MAX_RETRIES"
    "tr = concat (map (\<lambda>i. insert_attempt env (k + i) (j + i)) [0 ..< n])"
    "rc = sqlite3_step env (k + n - 1)"
    "\<forall>i < n - 1. lock_status (sqlite3_step env (k + i))"
    "n < PREP_CMD_MAX_RETRIES \<longrightarrow> \<not> lock_status rc"
    unfolding insert_policy_def prod.case by auto
  have n: "length (step_statuses tr) = n"
    unfolding p(3) step_statuses_attempts by simp
  have sl: "length (sleeps_ms tr) \<le> PREP_CMD_MAX_RETRIES"
    using sleeps_ms_attempts_length[of env "\<lambda>i. k + i" "\<lambda>i. j + i" "[0 ..< n]"] p(2)
    unfolding p(3) by simp
  have sr: "\<forall>d \<in> set (sleeps_ms tr). 5000 \<le> d \<and> d < 10000"
    using sleeps_ms_attempts_range[of _ env "\<lambda>i. k + i" "\<lambda>i. j + i" "[0 ..< n]"]
    unfolding p(3) by (auto simp: PREP_CMD_RETRY_BASE_def PREP_CMD_RETRY_BACKOFF_def)
  have att: "(\<lambda>i. insert_attempt env (k + i) (j + i)) =
     (\<lambda>i. Step (sqlite3_step env (k + i)) #
                   (if sqlite3_step env (k + i) = SQLITE_BUSY \<or>
                       sqlite3_step env (k + i) = SQLITE_LOCKED
                    then [Sleep_ms (PREP_CMD_RETRY_BASE +
                                    random_value env (j + i) mod PREP_CMD_RETRY_BACKOFF)]
                    else []))"
    by (auto simp: insert_attempt_def lock_status_def fun_eq_iff)
  have tr: "tr = concat (map (\<lambda>i. Step (sqlite3_step env (k + i)) #
                   (if sqlite3_step env (k + i) = SQLITE_BUSY \<or>
                       sqlite3_step env (k + i) = SQLITE_LOCKED
                    then [Sleep_ms (PREP_CMD_RETRY_BASE +
                                    random_value env (j + i) mod PREP_CMD_RETRY_BACKOFF)]
                    else [])) [0 ..< n])"
    using p(3) unfolding att .
  have cst: "PREP_CMD_MAX_RETRIES = 20 \<and> PREP_CMD_RETRY_BASE = 5000 \<and> PREP_CMD_RETRY_BACKOFF = 5000"
    by (simp add: PREP_CMD_MAX_RETRIES_def PREP_CMD_RETRY_BASE_def PREP_CMD_RETRY_BACKOFF_def)
  have lk: "\<forall>i < n - 1. sqlite3_step env (k + i) = SQLITE_BUSY \<or>
                        sqlite3_step env (k + i) = SQLITE_LOCKED"
    using p(5) by (auto simp: lock_status_def)
  have fin: "n < PREP_CMD_MAX_RETRIES \<longrightarrow> rc \<noteq> SQLITE_BUSY \<and> rc \<noteq> SQLITE_LOCKED"
    using p(6) by (auto simp: lock_status_def)
  show ?thesis
    unfolding res prod.case Let_def n
    using cst p(1,2,4) lk fin tr sl sr by blast
qed

text \<open>
  The theorem where the database is busy for the first two steps and the jitter drawn
  is 7001 and then 12: three steps, sleeps of 7001 ms and 5012 ms.
\<close>

theorem prepared_insert_retry_witness:
  "(let env = (env_busy_first 2)\<lparr>random_value := (\<lambda>j. if j = 0 then 7001 else 12)\<rparr>;
        tr = fst (snd (step_with_retry env 0 0 0));
        n = length (step_statuses tr)
    in n = 3 \<and> (0::nat) < n - 1 \<and> n < PREP_CMD_MAX_RETRIES \<and>
       sleeps_ms tr = [7001, 5012] \<and> (5012::nat) \<in> set (sleeps_ms tr) \<and>
       (5000::nat) \<le> 5012 \<and> (5012::nat) < 10000 \<and>
       fst (step_with_retry env 0 0 0) = SQLITE_DONE)"
  using prepared_insert_retry
          [of "(env_busy_first 2)\<lparr>random_value := (\<lambda>j. if j = 0 then 7001 else 12)\<rparr>" 0 0]
  by (simp add: step_with_retry.simps env_busy_first_def Let_def PREP_CMD_MAX_RETRIES_def
        PREP_CMD_RETRY_BASE_def PREP_CMD_RETRY_BACKOFF_def
        SQLITE_BUSY_def SQLITE_LOCKED_def SQLITE_DONE_def)

section \<open>Properties of \<^verbatim>\<open>appendReadings\<close> and \<^verbatim>\<open>readingStream\<close>\<close>








text \<open>What \<^verbatim>\<open>select_stmt\<close> keeps and what it sets.\<close>

lemma select_stmt_events [simp]:
  "events (select_stmt env a st) = events st" "row (select_stmt env a st) = row st"
  by (simp_all add: select_stmt_def Let_def)



lemma date_accepted_simps [simp]:
  "date_accepted env NotObject = False"
  "date_accepted env (ReadingObject u a p) = (resolve_user_ts env u \<noteq> None)"
  by (simp_all add: date_accepted_def)






text \<open>
  Whenever \<^verbatim>\<open>readingStream\<close> gets through its loop and commits, what it returns is the
  number of entries in the stream, whatever the number of rows inserted.
\<close>

lemma stream_loop_index:
  "stream_loop env entries st = (None, st') \<Longrightarrow> i st' = i st + int (length entries)"
proof (induction entries arbitrary: st)
  case Nil
  then show ?case by simp
next
  case (Cons e entries)
  show ?case
  proof (cases "resolve_user_ts env (userTs e)")
    case None
    with Cons.prems have "stream_loop env entries (st\<lparr>i := i st + 1\<rparr>) = (None, st')" by simp
    from Cons.IH[OF this] show ?thesis by simp
  next
    case (Some ts)
    obtain rc tr k j where sw: "step_with_retry env (s_steps st) (s_randoms st) 0 = (rc, tr, k, j)"
      by (metis prod_cases4)
    show ?thesis
    proof (cases "rc = SQLITE_DONE")
      case True
      with Cons.prems Some sw
      have "stream_loop env entries
              (st\<lparr>s_steps := k, s_randoms := j,
                  s_events := s_events st @ Bind 1 None ts (payload_text e) # tr,
                  rowNumber := rowNumber st + 1, i := i st + 1\<rparr>) = (None, st')"
        by (simp add: Let_def)
      from Cons.IH[OF this] show ?thesis by simp
    next
      case False
      with Cons.prems Some sw show ?thesis by (simp add: Let_def)
    qed
  qed
qed

lemma readingStream_returns_entry_count:
  assumes "readingStream env entries = (r, tr)" and "r \<noteq> - 1"
  shows "r = int (length entries)"
proof -
  let ?st0 = "\<lparr>s_steps = 0, s_randoms = 0, s_events = [BeginTransaction],
               rowNumber = - 1, i = 0\<rparr>"
  obtain res st' where run: "stream_loop env entries ?st0 = (res, st')" by force
  show ?thesis
  proof (cases res)
    case None
    with run have "i st' = int (length entries)"
      using stream_loop_index[of env entries ?st0 st'] by simp
    with assms None run show ?thesis
      by (auto simp: readingStream_def Let_def split: if_splits)
  next
    case (Some v)
    have "\<And>st. stream_loop env entries st = (Some v, st') \<Longrightarrow> v = - 1"
    proof (induction entries)
      case Nil
      then show ?case by simp
    next
      case (Cons e entries)
      then show ?case
        by (auto simp: Let_def split: option.splits prod.splits if_splits)
    qed
    with Some run have "v = - 1" by blast
    with assms Some run show ?thesis
      by (auto simp: readingStream_def Let_def split: if_splits)
  qed
qed

text \<open>
  Claim C5, as the code has it. A stream of two entries, the second with a date that
  \<^verbatim>\<open>formatDate\<close> rejects: one row is bound and stepped, the transaction is committed,
  and the method returns 2, the number of entries read, where \<^verbatim>\<open>appendReadings\<close>
  returns 1 for the same two readings.
\<close>

theorem readingStream_counts_skipped_entries:
  "readingStream (env_busy_first 0) [good_entry, bad_date_entry] =
     (2, [BeginTransaction,
          Bind 1 None ''2024-01-01 00:00:00.000000'' ''{x:1}'',
          Step SQLITE_DONE,
          EndTransaction SQLITE_OK]) \<and>
   rows_inserted (snd (readingStream (env_busy_first 0) [good_entry, bad_date_entry])) = 1 \<and>
   map_option fst (appendReadings (env_busy_first 0)
                     (ReadingsArray [good_reading, bad_date_reading]) 7) = Some 1"
  by (simp add: readingStream_def appendReadings_def good_entry_def bad_date_entry_def
        good_reading_def bad_date_reading_def resolve_user_ts_def rows_inserted_def
        select_stmt_def step_with_retry.simps env_busy_first_def Let_def
        PREP_CMD_MAX_RETRIES_def PREP_CMD_RETRY_BASE_def PREP_CMD_RETRY_BACKOFF_def
        SQLITE_BUSY_def SQLITE_LOCKED_def SQLITE_DONE_def SQLITE_OK_def)

section \<open>Properties of the purge engine\<close>

lemma recalc_block_size_range:
  assumes "MIN_PURGE_DELETE_BLOCK_SIZE \<le> p" and "p \<le> MAX_PURGE_DELETE_BLOCK_SIZE"
  shows "MIN_PURGE_DELETE_BLOCK_SIZE \<le> recalc_block_size scale avg p \<and>
         recalc_block_size scale avg p \<le> MAX_PURGE_DELETE_BLOCK_SIZE"
  using assms
  by (simp add: recalc_block_size_def Let_def MIN_PURGE_DELETE_BLOCK_SIZE_def
        MAX_PURGE_DELETE_BLOCK_SIZE_def)

lemma purge_block_range:
  assumes "MIN_PURGE_DELETE_BLOCK_SIZE \<le> purgeBlockSize st"
    and "purgeBlockSize st \<le> MAX_PURGE_DELETE_BLOCK_SIZE"
  shows "(case purge_block scale rl sample st of
            Inl st' \<Rightarrow> MIN_PURGE_DELETE_BLOCK_SIZE \<le> purgeBlockSize st' \<and>
                       purgeBlockSize st' \<le> MAX_PURGE_DELETE_BLOCK_SIZE
          | Inr st' \<Rightarrow> MIN_PURGE_DELETE_BLOCK_SIZE \<le> purgeBlockSize st' \<and>
                       purgeBlockSize st' \<le> MAX_PURGE_DELETE_BLOCK_SIZE)"
  using assms recalc_block_size_range[OF assms]
  by (simp add: purge_block_def Let_def)

lemma purge_blocks_range:
  assumes "MIN_PURGE_DELETE_BLOCK_SIZE \<le> purgeBlockSize st"
    and "purgeBlockSize st \<le> MAX_PURGE_DELETE_BLOCK_SIZE"
    and "purge_blocks scale rl samples st = Some res"
  shows "(case res of
            Inl st' \<Rightarrow> MIN_PURGE_DELETE_BLOCK_SIZE \<le> purgeBlockSize st' \<and>
                       purgeBlockSize st' \<le> MAX_PURGE_DELETE_BLOCK_SIZE
          | Inr st' \<Rightarrow> MIN_PURGE_DELETE_BLOCK_SIZE \<le> purgeBlockSize st' \<and>
                       purgeBlockSize st' \<le> MAX_PURGE_DELETE_BLOCK_SIZE)"
  using assms
proof (induction samples arbitrary: st)
  case Nil
  then show ?case
    by (subst (asm) purge_blocks.simps) (auto split: if_splits)
next
  case (Cons sample later)
  show ?case
  proof (cases "rowidMin st < rl")
    case False
    with Cons.prems show ?thesis
      by (subst (asm) purge_blocks.simps) auto
  next
    case True
    note step = purge_block_range[OF Cons.prems(1,2), of scale rl sample]
    show ?thesis
    proof (cases "purge_block scale rl sample st")
      case (Inl st')
      with True Cons.prems(3) have "res = Inl st'"
        by (subst (asm) purge_blocks.simps) simp
      with step Inl show ?thesis by simp
    next
      case (Inr st')
      with True Cons.prems(3) have run: "purge_blocks scale rl later st' = Some res"
        by (subst (asm) purge_blocks.simps) simp
      from step Inr have "MIN_PURGE_DELETE_BLOCK_SIZE \<le> purgeBlockSize st'"
        "purgeBlockSize st' \<le> MAX_PURGE_DELETE_BLOCK_SIZE" by simp_all
      from Cons.IH[OF this run] show ?thesis .
    qed
  qed
qed

lemma purge_delete_range:
  assumes "MIN_PURGE_DELETE_BLOCK_SIZE \<le> pbs" and "pbs \<le> MAX_PURGE_DELETE_BLOCK_SIZE"
    and "purge_delete scale samples pbs rows flags sent mx mn x = Some res"
  shows "MIN_PURGE_DELETE_BLOCK_SIZE \<le> block_size_after res \<and>
         block_size_after res \<le> MAX_PURGE_DELETE_BLOCK_SIZE"
proof -
  let ?st0 = "\<lparr>rowidMin = mn, blocks = 0, totTime = 0, prevBlocks = 0,
               prevTotTime = 0, deletedRows = 0, purgeBlockSize = pbs,
               readings_1 = rows, deletes = []\<rparr>"
  obtain out where out: "purge_blocks scale x samples ?st0 = Some out"
    using assms(3) unfolding purge_delete_def Let_def by (auto split: option.splits)
  have "MIN_PURGE_DELETE_BLOCK_SIZE \<le> purgeBlockSize ?st0"
    "purgeBlockSize ?st0 \<le> MAX_PURGE_DELETE_BLOCK_SIZE"
    using assms(1,2) by simp_all
  from purge_blocks_range[OF this out]
  have "MIN_PURGE_DELETE_BLOCK_SIZE \<le> purgeBlockSize (state_of out) \<and>
        purgeBlockSize (state_of out) \<le> MAX_PURGE_DELETE_BLOCK_SIZE"
    by (simp add: state_of_def split: sum.splits)
  moreover have "block_size_after res = purgeBlockSize (state_of out)"
    using assms(3) out unfolding purge_delete_def Let_def
    by (auto simp: state_of_def nothing_purged_def split: sum.splits)
  ultimately show ?thesis by simp
qed

lemma purgeReadings_range:
  assumes "MIN_PURGE_DELETE_BLOCK_SIZE \<le> pbs" and "pbs \<le> MAX_PURGE_DELETE_BLOCK_SIZE"
    and "purgeReadings scale samples now pbs rows age flags sent = Some res"
  shows "MIN_PURGE_DELETE_BLOCK_SIZE \<le> block_size_after res \<and>
         block_size_after res \<le> MAX_PURGE_DELETE_BLOCK_SIZE"
proof -
  have "res = nothing_purged rows pbs \<or>
        (\<exists>mx mn x. purge_delete scale samples pbs rows flags sent mx mn x = Some res)"
    using assms(3) unfolding purgeReadings_def Let_def
    by (auto split: if_splits option.splits)
  then show ?thesis
  proof
    assume "res = nothing_purged rows pbs"
    with assms(1,2) show ?thesis by (simp add: nothing_purged_def)
  next
    assume "\<exists>mx mn x. purge_delete scale samples pbs rows flags sent mx mn x = Some res"
    then obtain mx mn x where "purge_delete scale samples pbs rows flags sent mx mn x = Some res"
      by blast
    from purge_delete_range[OF assms(1,2) this] show ?thesis .
  qed
qed

text \<open>
  Claim C7. \<^verbatim>\<open>purgeBlockSize\<close> starts at 20, which lies in \<open>[20, 1500]\<close>. From a value in
  \<open>[20, 1500]\<close>, whatever the average block time and whatever the single precision
  product comes to: the recomputation gives a value in \<open>[20, 1500]\<close>; so does every turn
  of the delete loop, whether it recomputes or not and whether its \<^verbatim>\<open>DELETE\<close> succeeds or
  not; and so does every call of \<^verbatim>\<open>purgeReadings\<close> that returns. (The variable is
  written by \<^verbatim>\<open>purgeReadings\<close> only, and read at the top of a turn and at the start of a
  recomputation, where the bound holds; between the assignments of one recomputation
  it holds the intermediate results.)
\<close>

theorem purgeBlockSize_in_range:
  "MIN_PURGE_DELETE_BLOCK_SIZE = 20 \<and> MAX_PURGE_DELETE_BLOCK_SIZE = 1500 \<and>
   PURGE_DELETE_BLOCK_SIZE \<in> {20 .. 1500} \<and>
   (pbs \<in> {20 .. 1500} \<longrightarrow> recalc_block_size scale avg pbs \<in> {20 .. 1500}) \<and>
   (purgeBlockSize st \<in> {20 .. 1500} \<longrightarrow>
      (case purge_block scale rl sample st of
         Inl st' \<Rightarrow> purgeBlockSize st' \<in> {20 .. 1500}
       | Inr st' \<Rightarrow> purgeBlockSize st' \<in> {20 .. 1500})) \<and>
   (pbs \<in> {20 .. 1500} \<longrightarrow>
      (case purgeReadings scale samples now pbs rows age flags sent of
         None \<Rightarrow> True
       | Some res \<Rightarrow> block_size_after res \<in> {20 .. 1500}))"
proof (intro conjI impI)
  show "MIN_PURGE_DELETE_BLOCK_SIZE = 20" "MAX_PURGE_DELETE_BLOCK_SIZE = 1500"
    "PURGE_DELETE_BLOCK_SIZE \<in> {20 .. 1500}"
    by (simp_all add: MIN_PURGE_DELETE_BLOCK_SIZE_def MAX_PURGE_DELETE_BLOCK_SIZE_def
          PURGE_DELETE_BLOCK_SIZE_def)
next
  assume "pbs \<in> {20 .. 1500}"
  then show "recalc_block_size scale avg pbs \<in> {20 .. 1500}"
    using recalc_block_size_range[of pbs scale avg]
    by (simp add: MIN_PURGE_DELETE_BLOCK_SIZE_def MAX_PURGE_DELETE_BLOCK_SIZE_def)
next
  assume "purgeBlockSize st \<in> {20 .. 1500}"
  then show "case purge_block scale rl sample st of
         Inl st' \<Rightarrow> purgeBlockSize st' \<in> {20 .. 1500}
       | Inr st' \<Rightarrow> purgeBlockSize st' \<in> {20 .. 1500}"
    using purge_block_range[of st scale rl sample]
    by (simp add: MIN_PURGE_DELETE_BLOCK_SIZE_def MAX_PURGE_DELETE_BLOCK_SIZE_def
          split: sum.splits)
next
  assume pbs: "pbs \<in> {20 .. 1500}"
  show "case purgeReadings scale samples now pbs rows age flags sent of
         None \<Rightarrow> True
       | Some res \<Rightarrow> block_size_after res \<in> {20 .. 1500}"
  proof (cases "purgeReadings scale samples now pbs rows age flags sent")
    case None
    then show ?thesis by simp
  next
    case (Some res)
    have "block_size_after res \<in> {20 .. 1500}"
      using purgeReadings_range[OF _ _ Some] pbs
      by (simp add: MIN_PURGE_DELETE_BLOCK_SIZE_def MAX_PURGE_DELETE_BLOCK_SIZE_def)
    with Some show ?thesis by simp
  qed
qed

text \<open>
  The theorem on the spec's scenario 5, blocks of 300 ms: at a block size of 1000 the
  30th block halves it to 500, and at 20 the recomputation leaves it at 20.
\<close>

theorem purgeBlockSize_in_range_witness:
  "purgeBlockSize slow_blocks_state \<in> {20 .. 1500} \<and>
   (case purge_block exact_scale 100000 (300000, True) slow_blocks_state of
      Inl st' \<Rightarrow> False
    | Inr st' \<Rightarrow> blocks st' = 30 \<and> purgeBlockSize st' = 500 \<and>
                 purgeBlockSize st' \<in> {20 .. 1500}) \<and>
   (20 :: int) \<in> {20 .. 1500} \<and>
   recalc_block_size exact_scale 300000 20 = 20"
proof -
  have avg: "block_averages
               (slow_blocks_state\<lparr>blocks := 30, rowidMin := 30000, deletes := [30000],
                                  totTime := 30 * 300000\<rparr>) = 300000"
    by (simp add: block_averages_def slow_blocks_state_def u32_def s32_def c_div_def Let_def)
  have r1: "recalc_block_size exact_scale 300000 1000 = 500"
    by (simp add: recalc_block_size_def exact_scale_def Let_def s32_def c_div_def
          TARGET_PURGE_BLOCK_DEL_TIME_def PURGE_BLOCK_SZ_GRANULARITY_def
          MIN_PURGE_DELETE_BLOCK_SIZE_def MAX_PURGE_DELETE_BLOCK_SIZE_def)
  have r2: "recalc_block_size exact_scale 300000 20 = 20"
    by (simp add: recalc_block_size_def exact_scale_def Let_def s32_def c_div_def
          TARGET_PURGE_BLOCK_DEL_TIME_def PURGE_BLOCK_SZ_GRANULARITY_def
          MIN_PURGE_DELETE_BLOCK_SIZE_def MAX_PURGE_DELETE_BLOCK_SIZE_def)
  have blk: "purge_block exact_scale 100000 (300000, True) slow_blocks_state =
     Inr (slow_blocks_state\<lparr>blocks := 30, rowidMin := 30000, deletes := [30000],
                            totTime := 30 * 300000, purgeBlockSize := 500,
                            prevBlocks := 30, prevTotTime := 30 * 300000\<rparr>)"
    using avg
    by (simp add: purge_block_def Let_def r1 u64_def u32_def
          RECALC_PURGE_BLOCK_SIZE_NUM_BLOCKS_def slow_blocks_state_def)
  have p: "purgeBlockSize slow_blocks_state \<in> {20 .. 1500}"
    by (simp add: slow_blocks_state_def)
  from purgeBlockSize_in_range
         [where st = slow_blocks_state and scale = exact_scale and rl = 100000
            and sample = "(300000, True)" and pbs = 20 and avg = 300000
            and samples = "[]" and now = 0 and rows = "[]" and age = 0 and flags = 0
            and sent = 0]
  show ?thesis using p blk r2
    by (simp add: MIN_PURGE_DELETE_BLOCK_SIZE_def MAX_PURGE_DELETE_BLOCK_SIZE_def
          PURGE_DELETE_BLOCK_SIZE_def)
qed

text \<open>
  Where no unsigned value wraps, the search stays below its starting ceiling: with
  \<open>l \<ge> 1\<close> the step \<^verbatim>\<open>r = m - 1\<close> cannot pass below 0, and with the ceiling below
  \<open>2^64 - 1\<close> the step \<^verbatim>\<open>l = m + 1\<close> cannot pass above it. So on a table whose rowids lie
  between 1 and \<open>2^63 - 1\<close>, a purge that keeps unsent rows issues no \<^verbatim>\<open>DELETE\<close> with a
  bound above \<open>sent\<close> and leaves every row above \<open>sent\<close> in place.
\<close>

lemma u64_int: "n < 2 ^ 64 \<Longrightarrow> u64 (int n) = n"
proof -
  assume "n < 2 ^ 64"
  then have "int n < int (2 ^ 64)" by (simp only: of_nat_less_iff)
  then have "int n mod 2 ^ 64 = int n" by simp
  then show ?thesis by (simp add: u64_def)
qed

lemma u64_pred: "1 \<le> n \<Longrightarrow> n < 2 ^ 64 \<Longrightarrow> u64 (int n - 1) = n - 1"
proof -
  assume n: "1 \<le> n" "n < 2 ^ 64"
  then have e: "int n - 1 = int (n - 1)" by (simp add: of_nat_diff)
  have "n - 1 < 2 ^ 64" using n(2) by (rule less_imp_diff_less)
  then have "u64 (int (n - 1)) = n - 1" by (rule u64_int)
  then show ?thesis by (simp only: e)
qed

lemma u64_succ: "n + 1 < 2 ^ 64 \<Longrightarrow> u64 (int n + 1) = n + 1"
proof -
  assume n: "n + 1 < 2 ^ 64"
  have "u64 (int (n + 1)) = n + 1" using n by (rule u64_int)
  then show ?thesis by (simp only: of_nat_add of_nat_1)
qed

lemma refine_limit_below:
  assumes R: "R < 2 ^ 64 - 1"
    and run: "refine_limit probe l r m = Some x"
    and start: "1 \<le> l" "r \<le> R" "m \<le> R"
  shows "x \<le> R"
proof -
  have "1 \<le> l \<longrightarrow> r \<le> R \<longrightarrow> m \<le> R \<longrightarrow> x \<le> R"
  proof (rule refine_limit.raw_induct
           [where P = "\<lambda>probe l r m x. 1 \<le> l \<longrightarrow> r \<le> R \<longrightarrow> m \<le> R \<longrightarrow> x \<le> R", OF _ run])
    fix rec :: "(nat \<Rightarrow> nat) \<Rightarrow> nat \<Rightarrow> nat \<Rightarrow> nat \<Rightarrow> nat option"
      and probe :: "nat \<Rightarrow> nat" and l r m x :: nat
    assume IH: "\<And>p l r m y. rec p l r m = Some y \<Longrightarrow> 1 \<le> l \<longrightarrow> r \<le> R \<longrightarrow> m \<le> R \<longrightarrow> y \<le> R"
      and body: "(if l \<le> r
          then let prev_m = m; m' = u64 (int l + int ((r - l) div 2))
               in if prev_m = m' then Some m'
                  else if probe m' = 0
                       then rec probe l (u64 (int m' - 1)) (u64 (int m' - 1))
                       else rec probe (u64 (int m' + 1)) r m'
          else Some m) = Some x"
    show "1 \<le> l \<longrightarrow> r \<le> R \<longrightarrow> m \<le> R \<longrightarrow> x \<le> R"
    proof (intro impI)
      assume l1: "1 \<le> l" and rR: "r \<le> R" and mR: "m \<le> R"
      show "x \<le> R"
      proof (cases "l \<le> r")
        case False
        with body have "x = m" by simp
        with mR show ?thesis by simp
      next
        case True
        define k where "k = l + (r - l) div 2"
        have mid: "l \<le> k" "k \<le> r" using True by (auto simp: k_def)
        have small: "k + 1 < 2 ^ 64" using mid(2) rR R by linarith
        have "int l + int ((r - l) div 2) = int k" by (simp add: k_def)
        then have m': "u64 (int l + int ((r - l) div 2)) = k"
          using u64_int[of k] small by simp
        from body True have body': "(if m = k then Some k
                  else if probe k = 0
                       then rec probe l (u64 (int k - 1)) (u64 (int k - 1))
                       else rec probe (u64 (int k + 1)) r k) = Some x"
          unfolding Let_def m' by simp
        show ?thesis
        proof (cases "m = k")
          case same: True
          with body' have "x = k" by simp
          with mid rR show ?thesis by simp
        next
          case diff: False
          show ?thesis
          proof (cases "probe k = 0")
            case zero: True
            have k1: "1 \<le> k" using mid(1) l1 by simp
            have down: "u64 (int k - 1) = k - 1"
              using u64_pred[OF k1] small by simp
            from body' diff zero have "rec probe l (k - 1) (k - 1) = Some x"
              unfolding down by simp
            from IH[OF this] l1 mid(2) rR show ?thesis by simp
          next
            case nz: False
            have up: "u64 (int k + 1) = k + 1" by (rule u64_succ[OF small])
            from body' diff nz have "rec probe (k + 1) r k = Some x"
              unfolding up by simp
            from IH[OF this] rR mid(2) show ?thesis by simp
          qed
        qed
      qed
    qed
  qed
  with start show ?thesis by simp
qed


lemma purge_block_below:
  assumes "\<forall>b \<in> set (deletes st). b \<le> rl"
  shows "(\<forall>b \<in> set (deletes (state_of (purge_block scale rl sample st))). b \<le> rl) \<and>
         filter (\<lambda>rw. rl < rowid rw) (readings_1 (state_of (purge_block scale rl sample st))) =
         filter (\<lambda>rw. rl < rowid rw) (readings_1 st)"
proof -
  define b where "b = (if u64 (int (rowidMin st) + purgeBlockSize st) > rl then rl
                       else u64 (int (rowidMin st) + purgeBlockSize st))"
  have b: "b \<le> rl" by (simp add: b_def)
  have keep: "filter (\<lambda>rw. rl < rowid rw) (filter (\<lambda>rw. \<not> rowid rw \<le> b) rows) =
              filter (\<lambda>rw. rl < rowid rw) rows" for rows :: "reading_row list"
    using b by (induction rows) auto
  show ?thesis
    using assms b keep
    unfolding purge_block_def Let_def b_def[symmetric] state_of_def
    by (auto split: if_splits)
qed

lemma purge_blocks_below:
  assumes "purge_blocks scale rl samples st = Some res"
    and "\<forall>b \<in> set (deletes st). b \<le> rl"
  shows "(\<forall>b \<in> set (deletes (state_of res)). b \<le> rl) \<and>
         filter (\<lambda>rw. rl < rowid rw) (readings_1 (state_of res)) =
         filter (\<lambda>rw. rl < rowid rw) (readings_1 st)"
  using assms
proof (induction samples arbitrary: st)
  case Nil
  then show ?case
    by (subst (asm) purge_blocks.simps) (auto simp: state_of_def split: if_splits)
next
  case (Cons sample later)
  show ?case
  proof (cases "rowidMin st < rl")
    case False
    with Cons.prems show ?thesis
      by (subst (asm) purge_blocks.simps) (auto simp: state_of_def)
  next
    case True
    note step = purge_block_below[OF Cons.prems(2), of scale sample]
    show ?thesis
    proof (cases "purge_block scale rl sample st")
      case (Inl st')
      with True Cons.prems(1) have "res = Inl st'"
        by (subst (asm) purge_blocks.simps) simp
      with step Inl show ?thesis by (simp add: state_of_def)
    next
      case (Inr st')
      with True Cons.prems(1) have run: "purge_blocks scale rl later st' = Some res"
        by (subst (asm) purge_blocks.simps) simp
      from step Inr have st': "\<forall>b \<in> set (deletes st'). b \<le> rl"
        "filter (\<lambda>rw. rl < rowid rw) (readings_1 st') = filter (\<lambda>rw. rl < rowid rw) (readings_1 st)"
        by (simp_all add: state_of_def)
      from Cons.IH[OF run st'(1)] st'(2) show ?thesis by simp
    qed
  qed
qed

lemma filter_above: 
  assumes "a \<le> (s::nat)"
    and "filter (\<lambda>rw. a < rowid rw) xs = filter (\<lambda>rw. a < rowid rw) ys"
  shows "filter (\<lambda>rw. s < rowid rw) xs = filter (\<lambda>rw. s < rowid rw) (ys :: reading_row list)"
proof -
  have "filter (\<lambda>rw. s < rowid rw) zs = filter (\<lambda>rw. s < rowid rw) (filter (\<lambda>rw. a < rowid rw) zs)"
    for zs :: "reading_row list"
    using assms(1) by (induction zs) auto
  from this[of xs] this[of ys] assms(2) show ?thesis by simp
qed

lemma purge_delete_below:
  assumes "purge_delete scale samples pbs rows flags sent mx mn x = Some res"
  shows "(\<forall>b \<in> set (delete_bounds res). b \<le> x) \<and>
         filter (\<lambda>rw. x < rowid rw) (table_after res) = filter (\<lambda>rw. x < rowid rw) rows"
proof -
  let ?st0 = "\<lparr>rowidMin = mn, blocks = 0, totTime = 0, prevBlocks = 0,
               prevTotTime = 0, deletedRows = 0, purgeBlockSize = pbs,
               readings_1 = rows, deletes = []\<rparr>"
  obtain out where out: "purge_blocks scale x samples ?st0 = Some out"
    using assms unfolding purge_delete_def Let_def by (auto split: option.splits)
  from purge_blocks_below[OF out]
  have below: "\<forall>b \<in> set (deletes (state_of out)). b \<le> x"
    "filter (\<lambda>rw. x < rowid rw) (readings_1 (state_of out)) = filter (\<lambda>rw. x < rowid rw) rows"
    by simp_all
  have "delete_bounds res = deletes (state_of out) \<and> table_after res = readings_1 (state_of out)"
    using assms out unfolding purge_delete_def Let_def
    by (auto simp: state_of_def nothing_purged_def split: sum.splits)
  with below show ?thesis by simp
qed

lemma purgeReadings_keeps_unsent:
  assumes rows: "\<forall>rw \<in> set rows. 1 \<le> rowid rw \<and> rowid rw < 2 ^ 63"
    and keep: "flags mod 2 = 1" "sent \<noteq> 0"
    and run: "purgeReadings scale samples now pbs rows age flags sent = Some res"
  shows "(\<forall>b \<in> set (delete_bounds res). b \<le> sent) \<and>
         filter (\<lambda>rw. sent < rowid rw) (table_after res) = filter (\<lambda>rw. sent < rowid rw) rows"
proof -
  define l where "l = min_rowid rows"
  define r where "r = max (min sent (max_rowid rows)) l"
  define probe where "probe = probe_rowid rows (now - int (purge_age now rows age) * 3600)"
  have run': "(if l = r then Some (nothing_purged rows pbs)
               else (case refine_limit probe l r l of
                       None \<Rightarrow> None
                     | Some x \<Rightarrow> if l = x then Some (nothing_purged rows pbs)
                                 else purge_delete scale samples pbs rows flags sent (max_rowid rows) l x))
              = Some res"
  proof -
    have c: "(flags mod 2 = 1 \<and> sent \<noteq> 0) = True" using keep by simp
    show ?thesis
      using run unfolding purgeReadings_def Let_def l_def r_def probe_def c if_True .
  qed
  show ?thesis
  proof (cases "l = r")
    case True
    with run' have "res = nothing_purged rows pbs" by simp
    then show ?thesis by (simp add: nothing_purged_def)
  next
    case ne: False
    then have lr: "l < r" unfolding r_def by simp
    have ne_rows: "rows \<noteq> []"
    proof
      assume "rows = []"
      then have "l = 0" "r = 0" unfolding r_def l_def by (simp_all add: min_rowid_def max_rowid_def)
      with ne show False by simp
    qed
    have l1: "1 \<le> l"
      using ne_rows rows unfolding l_def min_rowid_def by (simp add: Min_ge_iff)
    have mx: "max_rowid rows < 2 ^ 63"
      using ne_rows rows unfolding max_rowid_def by (simp add: Max_less_iff)
    have rs: "r \<le> sent" "r \<le> max_rowid rows"
      using lr unfolding r_def by (auto simp: max_def min_def split: if_splits)
    have R: "r < 2 ^ 64 - 1" using rs(2) mx by simp
    obtain x where x: "refine_limit probe l r l = Some x"
      using run' ne by (auto split: option.splits)
    have "x \<le> r" using refine_limit_below[OF R x l1] lr by simp
    then have xs: "x \<le> sent" using rs(1) by simp
    show ?thesis
    proof (cases "l = x")
      case True
      with run' ne x have "res = nothing_purged rows pbs" by simp
      then show ?thesis by (simp add: nothing_purged_def)
    next
      case lx: False
      with run' ne x
      have "purge_delete scale samples pbs rows flags sent (max_rowid rows) l x = Some res"
        by simp
      from purge_delete_below[OF this]
      have below: "\<forall>b \<in> set (delete_bounds res). b \<le> x"
        "filter (\<lambda>rw. x < rowid rw) (table_after res) = filter (\<lambda>rw. x < rowid rw) rows"
        by simp_all
      show ?thesis
        using below(1) xs filter_above[OF xs below(2)] by auto
    qed
  qed
qed

lemma probe_gap_table:
  "probe_rowid gap_table 913600 m = (if m \<in> {1, 3, 5, 6} then m else 0)"
  by (auto simp: probe_rowid_def gap_table_def)

lemma refine_limit_gap_table:
  "refine_limit (probe_rowid gap_table 913600) 0 4 0 = Some 6"
  unfolding probe_gap_table
  by (simp add: refine_limit.simps u64_def Let_def)

text \<open>
  Claim C3, as the code has it. The table holds the rowids 0, 1, 3, 5 and 6; the rows
  1 to 6 are older than the 24 hours asked for, the row 0 is not. With the keep-unsent
  flag set and \<open>sent = 4\<close> the search starts between 0 and \<open>min(sent, 6) = 4\<close>, probes 2
  and then 0 without an answer, and computes \<^verbatim>\<open>r = m - 1\<close> with \<open>m = 0\<close>: the unsigned
  value wraps to \<open>2^64 - 1\<close>, the search goes on above \<open>sent\<close> and ends at 6. The one
  \<^verbatim>\<open>DELETE\<close> issued has the bound 6 and removes the rows 5 and 6, whose rowids are
  greater than \<open>sent\<close>.
\<close>

theorem purgeReadings_removes_unsent_rows:
  "purgeReadings exact_scale [(1000, True)] 1000000 20 gap_table 24 1 4 =
     Some \<lparr>returned = 5, removed = 5, unsentPurged = 0, unsentRetained = 0, readings = 2,
           table_after = [], delete_bounds = [6], block_size_after = 20\<rparr> \<and>
   map rowid gap_table = [0, 1, 3, 5, 6] \<and> (4 :: nat) < 5 \<and> (4 :: nat) < 6"
proof -
  have mx: "max_rowid gap_table = 6" and mn: "min_rowid gap_table = 0"
    by (simp_all add: max_rowid_def min_rowid_def gap_table_def)
  have cut: "(1000000 :: int) - int (purge_age 1000000 gap_table 24) * 3600 = 913600"
    by (simp add: purge_age_def)
  have del: "purge_blocks exact_scale 6 [(1000, True)]
               \<lparr>rowidMin = 0, blocks = 0, totTime = 0, prevBlocks = 0, prevTotTime = 0,
                deletedRows = 0, purgeBlockSize = 20, readings_1 = gap_table, deletes = []\<rparr> =
             Some (Inr \<lparr>rowidMin = 6, blocks = 1, totTime = 1000, prevBlocks = 0, prevTotTime = 0,
                        deletedRows = 5, purgeBlockSize = 20, readings_1 = [], deletes = [6]\<rparr>)"
    by (simp add: purge_blocks.simps purge_block_def Let_def u64_def u32_def gap_table_def
          RECALC_PURGE_BLOCK_SIZE_NUM_BLOCKS_def)
  have "purgeReadings exact_scale [(1000, True)] 1000000 20 gap_table 24 1 4 =
     Some \<lparr>returned = 5, removed = 5, unsentPurged = 0, unsentRetained = 0, readings = 2,
           table_after = [], delete_bounds = [6], block_size_after = 20\<rparr>"
    unfolding purgeReadings_def mx mn Let_def cut
    by (simp add: refine_limit_gap_table purge_delete_def del s32_def)
  then show ?thesis by (simp add: gap_table_def)
qed

end
